theory Spec2Isabelle
  imports Main "HOL-Library.Word" "HOL-Library.Multiset"
begin

section \<open>Taskly backend: data model\<close>

text \<open>
  The development embeds the two Express servers of the repository,
  \<^verbatim>\<open>backend/server.js\<close> (SQLite, callback style) and \<^verbatim>\<open>backend/server-pg.js\<close>
  (Postgres, async/await). Both keep a per-user in-memory cache of the task list in front
  of the \<^verbatim>\<open>tasks\<close> table and append a row to the \<^verbatim>\<open>logs\<close> table for every
  task request.

  A JavaScript string is a sequence of UTF-16 code units.
\<close>

type_synonym js_string = "16 word list"

definition js :: "string \<Rightarrow> js_string" where
  "js s = map of_char s"

text \<open>
  \<^verbatim>\<open>String.prototype.trim\<close> removes leading and trailing WhiteSpace and LineTerminator
  code points: TAB, LF, VT, FF, CR, SPACE, NBSP, U+1680, U+2000..U+200A, U+2028, U+2029,
  U+202F, U+205F, U+3000 and U+FEFF.
\<close>

definition is_js_whitespace :: "16 word \<Rightarrow> bool" where
  "is_js_whitespace c =
     (c \<in> {0x9, 0xA, 0xB, 0xC, 0xD, 0x20, 0xA0, 0x1680, 0x2028, 0x2029, 0x202F, 0x205F,
            0x3000, 0xFEFF}
      \<or> (0x2000 \<le> c \<and> c \<le> 0x200A))"

definition trim :: "js_string \<Rightarrow> js_string" where
  "trim s = rev (dropWhile is_js_whitespace (rev (dropWhile is_js_whitespace s)))"

text \<open>
  JSON values: what \<^verbatim>\<open>express.json()\<close> parses a request body into and what
  \<^verbatim>\<open>res.json\<close> sends. Property names are ASCII. A timestamp column is kept as the
  database clock reading it denotes (\<open>JTime\<close>). A value destructured from the request
  body is a \<open>json option\<close>: \<open>None\<close> is \<^verbatim>\<open>undefined\<close>.
\<close>

datatype json =
    JNull
  | JBool bool
  | JNum int
  | JStr js_string
  | JTime nat
  | JArr "json list"
  | JObj "(string \<times> json) list"

fun truthy :: "json option \<Rightarrow> bool" where
  "truthy None = False"
| "truthy (Some JNull) = False"
| "truthy (Some (JBool b)) = b"
| "truthy (Some (JNum n)) = (n \<noteq> 0)"
| "truthy (Some (JStr s)) = (s \<noteq> [])"
| "truthy (Some (JTime t)) = True"
| "truthy (Some (JArr xs)) = True"
| "truthy (Some (JObj kvs)) = True"

fun is_string :: "json option \<Rightarrow> bool" where
  "is_string (Some (JStr s)) = True"
| "is_string v = False"

fun string_of :: "json option \<Rightarrow> js_string" where
  "string_of (Some (JStr s)) = s"
| "string_of v = []"

text \<open>The rows of the \<^verbatim>\<open>tasks\<close> and \<^verbatim>\<open>logs\<close> tables.\<close>

record task =
  task_id :: js_string
  task_user_id :: js_string
  task_title :: js_string
  task_status :: js_string
  task_created_at :: nat
  task_updated_at :: nat

text \<open>
  A row of \<^verbatim>\<open>SELECT id, title, status, created_at, updated_at FROM tasks\<close>: the
  \<^verbatim>\<open>user_id\<close> column is not selected.
\<close>

record task_row =
  row_id :: js_string
  row_title :: js_string
  row_status :: js_string
  row_created_at :: nat
  row_updated_at :: nat

record log_row =
  log_method :: js_string
  log_path :: js_string
  log_user_id :: "js_string option"
  log_body :: "json option"
  log_created_at :: nat

text \<open>The cache: \<^verbatim>\<open>new Map()\<close> from user id to \<^verbatim>\<open>{ ts, tasks }\<close>.\<close>

record cache_entry =
  entry_ts :: int
  entry_tasks :: "task_row list"

text \<open>
  The effects a handler performs, in the order it performs them. The trace is an
  observer's record and no handler reads it.
\<close>

datatype event =
    EvStoreWrite js_string
  | EvCacheSet js_string
  | EvCacheDelete js_string
  | EvAudit js_string js_string

record server_state =
  tasks_table :: "task list"
  logs_table :: "log_row list"
  cache :: "js_string \<rightharpoonup> cache_entry"
  cacheHits :: nat
  cacheMisses :: nat
  trace :: "event list"

definition initial_state :: server_state where
  "initial_state =
     \<lparr>tasks_table = [], logs_table = [], cache = Map.empty, cacheHits = 0, cacheMisses = 0,
      trace = []\<rparr>"

datatype response = Response nat json | NoResponse

section \<open>The in-memory per-user cache\<close>

text \<open>
  \<^verbatim>\<open>getCachedTasks\<close>, \<^verbatim>\<open>setCachedTasks\<close> and \<^verbatim>\<open>invalidateCache\<close> have the same
  text in both servers. \<open>now\<close> is the reading of \<^verbatim>\<open>Date.now()\<close>, in milliseconds.
\<close>

definition CACHE_TTL_MS :: int where
  "CACHE_TTL_MS = 30 * 1000"

definition getCachedTasks :: "int \<Rightarrow> js_string \<Rightarrow> server_state \<Rightarrow> task_row list option \<times> server_state" where
  "getCachedTasks now userId st =
     (case cache st userId of
        Some entry \<Rightarrow>
          if now - entry_ts entry < CACHE_TTL_MS
          then (Some (entry_tasks entry), st\<lparr>cacheHits := cacheHits st + 1\<rparr>)
          else (None, st\<lparr>cacheMisses := cacheMisses st + 1\<rparr>)
      | None \<Rightarrow> (None, st\<lparr>cacheMisses := cacheMisses st + 1\<rparr>))"

definition setCachedTasks :: "int \<Rightarrow> js_string \<Rightarrow> task_row list \<Rightarrow> server_state \<Rightarrow> server_state" where
  "setCachedTasks now userId rows st =
     st\<lparr>cache := (cache st)(userId \<mapsto> \<lparr>entry_ts = now, entry_tasks = rows\<rparr>),
        trace := trace st @ [EvCacheSet userId]\<rparr>"

definition invalidateCache :: "js_string \<Rightarrow> server_state \<Rightarrow> server_state" where
  "invalidateCache userId st =
     st\<lparr>cache := (cache st)(userId := None), trace := trace st @ [EvCacheDelete userId]\<rparr>"

section \<open>What a request reads from its environment\<close>

text \<open>
  Everything a handler reads from outside the process is an input of the model: the two
  readings of \<^verbatim>\<open>Date.now()\<close> (in \<open>getCachedTasks\<close> and in \<open>setCachedTasks\<close>), the
  database clock (\<^verbatim>\<open>CURRENT_TIMESTAMP\<close>, \<^verbatim>\<open>NOW()\<close>), the identifier \<^verbatim>\<open>uuidv4()\<close>
  returns, whether the first and the second statement on the \<^verbatim>\<open>tasks\<close> table fail,
  whether the insert into \<^verbatim>\<open>logs\<close> fails when it is run (\<open>log_err\<close>) or cannot even
  be prepared (\<open>log_prepare_err\<close>: the \<^verbatim>\<open>logs\<close> table is gone, the database file is
  damaged), whether \<^verbatim>\<open>JSON.stringify\<close> throws, and (in \<^verbatim>\<open>server-pg.js\<close> only)
  whether \<^verbatim>\<open>pool.connect()\<close> rejects.
\<close>

record env =
  date_now_get :: int
  date_now_set :: int
  current_timestamp :: nat
  uuidv4 :: js_string
  db_err1 :: bool
  db_err2 :: bool
  log_err :: bool
  log_prepare_err :: bool
  stringify_throws :: bool
  connect_err :: bool

section \<open>The tasks table\<close>

datatype 'a db_result = DbError | DbOk 'a

text \<open>
  \<^verbatim>\<open>INSERT INTO tasks (id, user_id, title, status) VALUES (?, ?, ?, ?)\<close>. The column
  \<^verbatim>\<open>id\<close> is the primary key: a second row with the same id is refused.
\<close>

definition db_insert_task :: "bool \<Rightarrow> task \<Rightarrow> task list \<Rightarrow> task list db_result" where
  "db_insert_task err new tbl =
     (if err \<or> task_id new \<in> set (map task_id tbl) then DbError else DbOk (tbl @ [new]))"

text \<open>
  \<^verbatim>\<open>SELECT id FROM tasks WHERE id = ? AND user_id = ?\<close>, read with \<^verbatim>\<open>db.get\<close> (the
  first row or \<^verbatim>\<open>undefined\<close>) or through \<^verbatim>\<open>rowCount\<close>.
\<close>

definition db_get_task_id :: "bool \<Rightarrow> js_string \<Rightarrow> js_string \<Rightarrow> task list \<Rightarrow> js_string option db_result" where
  "db_get_task_id err taskId userId tbl =
     (if err then DbError
      else DbOk (case filter (\<lambda>t. task_id t = taskId \<and> task_user_id t = userId) tbl of
                   [] \<Rightarrow> None
                 | t # _ \<Rightarrow> Some (task_id t)))"

text \<open>
  \<^verbatim>\<open>UPDATE tasks SET status = ?, updated_at = CURRENT_TIMESTAMP WHERE id = ?\<close> and
  \<^verbatim>\<open>UPDATE tasks SET title = ?, updated_at = CURRENT_TIMESTAMP WHERE id = ?\<close>. The
  result carries the number of rows changed.
\<close>

definition db_update_status :: "bool \<Rightarrow> nat \<Rightarrow> js_string \<Rightarrow> js_string \<Rightarrow> task list \<Rightarrow> (nat \<times> task list) db_result" where
  "db_update_status err ts status taskId tbl =
     (if err then DbError
      else DbOk (length (filter (\<lambda>t. task_id t = taskId) tbl),
                 map (\<lambda>t. if task_id t = taskId
                          then t\<lparr>task_status := status, task_updated_at := ts\<rparr> else t) tbl))"

definition db_update_title :: "bool \<Rightarrow> nat \<Rightarrow> js_string \<Rightarrow> js_string \<Rightarrow> task list \<Rightarrow> (nat \<times> task list) db_result" where
  "db_update_title err ts title taskId tbl =
     (if err then DbError
      else DbOk (length (filter (\<lambda>t. task_id t = taskId) tbl),
                 map (\<lambda>t. if task_id t = taskId
                          then t\<lparr>task_title := title, task_updated_at := ts\<rparr> else t) tbl))"

text \<open>\<^verbatim>\<open>DELETE FROM tasks WHERE id = ? AND user_id = ?\<close>, with \<^verbatim>\<open>this.changes\<close>.\<close>

definition db_delete_task :: "bool \<Rightarrow> js_string \<Rightarrow> js_string \<Rightarrow> task list \<Rightarrow> (nat \<times> task list) db_result" where
  "db_delete_task err taskId userId tbl =
     (if err then DbError
      else DbOk (length (filter (\<lambda>t. task_id t = taskId \<and> task_user_id t = userId) tbl),
                 filter (\<lambda>t. \<not> (task_id t = taskId \<and> task_user_id t = userId)) tbl))"

text \<open>
  \<^verbatim>\<open>SELECT id, title, status, created_at, updated_at FROM tasks WHERE user_id = ?
  ORDER BY created_at DESC\<close>. The query names no second sort key, and the database engine
  is not part of the repository: how it orders the matching rows is the parameter
  \<open>eng\<close>. \<open>order_by_created_at_desc\<close> is what SQL promises of it: the same rows,
  with \<^verbatim>\<open>created_at\<close> never increasing.
\<close>

type_synonym engine = "task list \<Rightarrow> task list"

definition order_by_created_at_desc :: "engine \<Rightarrow> bool" where
  "order_by_created_at_desc eng =
     (\<forall>rows. mset (eng rows) = mset rows
        \<and> sorted_wrt (\<lambda>a b. task_created_at b \<le> task_created_at a) (eng rows))"

definition row_of_task :: "task \<Rightarrow> task_row" where
  "row_of_task t =
     \<lparr>row_id = task_id t, row_title = task_title t, row_status = task_status t,
      row_created_at = task_created_at t, row_updated_at = task_updated_at t\<rparr>"

definition db_all_tasks :: "engine \<Rightarrow> bool \<Rightarrow> js_string \<Rightarrow> task list \<Rightarrow> task_row list db_result" where
  "db_all_tasks eng err userId tbl =
     (if err then DbError
      else DbOk (map row_of_task (eng (filter (\<lambda>t. task_user_id t = userId) tbl))))"

text \<open>
  A write statement that succeeded leaves the new table in the state; it is recorded in
  the trace when it changed at least one row.
\<close>

definition store_write :: "js_string \<Rightarrow> (nat \<times> task list) db_result \<Rightarrow> server_state \<Rightarrow> nat db_result \<times> server_state" where
  "store_write userId res st =
     (case res of
        DbError \<Rightarrow> (DbError, st)
      | DbOk (changes, tbl) \<Rightarrow>
          (DbOk changes,
           if changes = 0 then st
           else st\<lparr>tasks_table := tbl, trace := trace st @ [EvStoreWrite userId]\<rparr>))"

definition store_insert :: "js_string \<Rightarrow> task list db_result \<Rightarrow> server_state \<Rightarrow> nat db_result \<times> server_state" where
  "store_insert userId res st =
     (case res of
        DbError \<Rightarrow> (DbError, st)
      | DbOk tbl \<Rightarrow> (DbOk 1, st\<lparr>tasks_table := tbl, trace := trace st @ [EvStoreWrite userId]\<rparr>))"

section \<open>The audit log\<close>

text \<open>
  \<^verbatim>\<open>safeJsonString\<close>: \<^verbatim>\<open>try { return JSON.stringify(obj); } catch(e){ return null; }\<close>.
  The text \<^verbatim>\<open>JSON.stringify\<close> returns is kept as the value it denotes.
\<close>

datatype 'a outcome = Returns 'a | Throws

definition JSON_stringify :: "env \<Rightarrow> json \<Rightarrow> json outcome" where
  "JSON_stringify env obj = (if stringify_throws env then Throws else Returns obj)"

definition safeJsonString :: "env \<Rightarrow> json \<Rightarrow> json option" where
  "safeJsonString env obj =
     (case JSON_stringify env obj of Returns s \<Rightarrow> Some s | Throws \<Rightarrow> None)"

text \<open>
  \<^verbatim>\<open>persistLog\<close> inserts \<^verbatim>\<open>[method, path, userId || null, b]\<close> into \<^verbatim>\<open>logs\<close> and
  returns to the handler in every case. What it leaves in the state is the same in both
  servers: the row, or nothing when the insert fails.
  \<^item> In \<^verbatim>\<open>server.js\<close> the statement is made by \<^verbatim>\<open>db.prepare\<close> and run by
    \<^verbatim>\<open>stmt.run\<close> with a callback. An error of the run reaches that callback, which
    prints it. \<^verbatim>\<open>db.prepare\<close> is called with no callback and the statement has no
    \<^verbatim>\<open>'error'\<close> listener: when the statement cannot be prepared, the queued run and
    its callback are dropped and the \<^verbatim>\<open>'error'\<close> event is unhandled, which ends the
    process after the handler has returned (\<open>persistLog_fate\<close>).
  \<^item> In \<^verbatim>\<open>server-pg.js\<close> the insert is one awaited \<^verbatim>\<open>client.query\<close> inside
    \<^verbatim>\<open>try\<close>, and the \<^verbatim>\<open>catch\<close> prints every error of it.
\<close>

definition persistLog :: "env \<Rightarrow> js_string \<Rightarrow> js_string \<Rightarrow> js_string \<Rightarrow> json \<Rightarrow> server_state \<Rightarrow> server_state" where
  "persistLog env meth path userId body st =
     (let b = safeJsonString env body;
          st1 = st\<lparr>trace := trace st @ [EvAudit meth path]\<rparr>
      in if log_prepare_err env \<or> log_err env then st1
         else st1\<lparr>logs_table := logs_table st1 @
                [\<lparr>log_method = meth, log_path = path,
                  log_user_id = (if userId = [] then None else Some userId),
                  log_body = b, log_created_at = current_timestamp env\<rparr>]\<rparr>)"

text \<open>
  What becomes of the insert \<^verbatim>\<open>persistLog\<close> of \<^verbatim>\<open>server.js\<close> issues: the row is
  inserted, or the error of the run is printed by the callback, or the error of the
  prepare is an event nobody handles and the process ends. The handler that called
  \<^verbatim>\<open>persistLog\<close> has returned by then; the state functions of this theory describe
  the server for as long as its process runs.
\<close>

datatype log_fate = LogInserted | LogErrorPrinted | LogErrorUnhandled

definition persistLog_fate :: "env \<Rightarrow> log_fate" where
  "persistLog_fate env =
     (if log_prepare_err env then LogErrorUnhandled
      else if log_err env then LogErrorPrinted
      else LogInserted)"

section \<open>The routes of \<^verbatim>\<open>server.js\<close> (SQLite)\<close>

text \<open>
  Each handler runs after \<^verbatim>\<open>authMiddleware\<close>: \<open>userId\<close> is \<^verbatim>\<open>req.user.id\<close>,
  \<open>taskId\<close> is \<^verbatim>\<open>req.params.id\<close>, and \<open>title\<close> and \<open>status\<close> are the properties
  destructured from \<^verbatim>\<open>req.body || {}\<close>. A callback the source passes to the database
  is a definition of its own (\<open>_cb\<close>), applied to the outcome of the statement; the
  handler as a whole runs the statement and then the callback.
\<close>

definition error_json :: "string \<Rightarrow> json" where
  "error_json msg = JObj [(''error'', JStr (js msg))]"

definition json_of_row :: "task_row \<Rightarrow> json" where
  "json_of_row r =
     JObj [(''id'', JStr (row_id r)), (''title'', JStr (row_title r)),
           (''status'', JStr (row_status r)), (''created_at'', JTime (row_created_at r)),
           (''updated_at'', JTime (row_updated_at r))]"

definition tasks_json :: "bool \<Rightarrow> task_row list \<Rightarrow> json" where
  "tasks_json cached rows =
     JObj [(''cached'', JBool cached), (''tasks'', JArr (map json_of_row rows))]"

definition new_task :: "env \<Rightarrow> js_string \<Rightarrow> js_string \<Rightarrow> task" where
  "new_task env userId title =
     \<lparr>task_id = uuidv4 env, task_user_id = userId, task_title = title,
      task_status = js ''TODO'', task_created_at = current_timestamp env,
      task_updated_at = current_timestamp env\<rparr>"

text \<open>\<^verbatim>\<open>app.post('/api/tasks', ...)\<close>\<close>

definition POST_api_tasks_cb :: "env \<Rightarrow> js_string \<Rightarrow> js_string \<Rightarrow> js_string \<Rightarrow> nat db_result \<Rightarrow> server_state \<Rightarrow> response \<times> server_state" where
  "POST_api_tasks_cb env userId ident title err st =
     (case err of
        DbError \<Rightarrow> (Response 500 (error_json ''DB error''), st)
      | DbOk _ \<Rightarrow>
          (let st1 = invalidateCache userId st;
               st2 = persistLog env (js ''POST'') (js ''/api/tasks'') userId
                       (JObj [(''title'', JStr title)]) st1
           in (Response 200
                 (JObj [(''id'', JStr ident), (''user_id'', JStr userId),
                        (''title'', JStr title), (''status'', JStr (js ''TODO''))]),
               st2)))"

definition POST_api_tasks :: "env \<Rightarrow> js_string \<Rightarrow> json option \<Rightarrow> server_state \<Rightarrow> response \<times> server_state" where
  "POST_api_tasks env userId title st =
     (if \<not> truthy title \<or> \<not> is_string title \<or> length (trim (string_of title)) = 0
      then (Response 400 (error_json ''title required''), st)
      else
        (let ident = uuidv4 env;
             (err, st1) = store_insert userId
                (db_insert_task (db_err1 env) (new_task env userId (trim (string_of title)))
                   (tasks_table st)) st
         in POST_api_tasks_cb env userId ident (string_of title) err st1))"

text \<open>\<^verbatim>\<open>app.get('/api/tasks', ...)\<close>\<close>

definition GET_api_tasks_cb :: "env \<Rightarrow> js_string \<Rightarrow> task_row list db_result \<Rightarrow> server_state \<Rightarrow> response \<times> server_state" where
  "GET_api_tasks_cb env userId res st =
     (case res of
        DbError \<Rightarrow> (Response 500 (error_json ''DB error''), st)
      | DbOk rows \<Rightarrow>
          (let st1 = setCachedTasks (date_now_set env) userId rows st;
               st2 = persistLog env (js ''GET'') (js ''/api/tasks'') userId (JObj []) st1
           in (Response 200 (tasks_json False rows), st2)))"

definition GET_api_tasks :: "engine \<Rightarrow> env \<Rightarrow> js_string \<Rightarrow> server_state \<Rightarrow> response \<times> server_state" where
  "GET_api_tasks eng env userId st =
     (case getCachedTasks (date_now_get env) userId st of
        (Some cached, st1) \<Rightarrow>
          (let st2 = persistLog env (js ''GET'') (js ''/api/tasks (cached)'') userId (JObj []) st1
           in (Response 200 (tasks_json True cached), st2))
      | (None, st1) \<Rightarrow>
          GET_api_tasks_cb env userId
            (db_all_tasks eng (db_err1 env) userId (tasks_table st1)) st1)"

text \<open>\<^verbatim>\<open>app.patch('/api/tasks/:id/status', ...)\<close>\<close>

definition valid_status :: "json option \<Rightarrow> bool" where
  "valid_status status =
     (status \<in> {Some (JStr (js ''TODO'')), Some (JStr (js ''IN_PROGRESS'')),
                 Some (JStr (js ''DONE''))})"

definition PATCH_status_run_cb :: "env \<Rightarrow> js_string \<Rightarrow> js_string \<Rightarrow> json option \<Rightarrow> nat db_result \<Rightarrow> server_state \<Rightarrow> response \<times> server_state" where
  "PATCH_status_run_cb env userId taskId status uerr st =
     (case uerr of
        DbError \<Rightarrow> (Response 500 (error_json ''DB error''), st)
      | DbOk _ \<Rightarrow>
          (let st1 = invalidateCache userId st;
               st2 = persistLog env (js ''PATCH'') (js ''/api/tasks/'' @ taskId @ js ''/status'')
                       userId (JObj [(''status'', JStr (string_of status))]) st1
           in (Response 200
                 (JObj [(''id'', JStr taskId), (''status'', JStr (string_of status))]), st2)))"

definition PATCH_status_get_cb :: "env \<Rightarrow> js_string \<Rightarrow> js_string \<Rightarrow> json option \<Rightarrow> js_string option db_result \<Rightarrow> server_state \<Rightarrow> response \<times> server_state" where
  "PATCH_status_get_cb env userId taskId status res st =
     (case res of
        DbError \<Rightarrow> (Response 500 (error_json ''DB error''), st)
      | DbOk None \<Rightarrow> (Response 404 (error_json ''task not found''), st)
      | DbOk (Some row) \<Rightarrow>
          (let (uerr, st1) = store_write userId
                 (db_update_status (db_err2 env) (current_timestamp env) (string_of status)
                    taskId (tasks_table st)) st
           in PATCH_status_run_cb env userId taskId status uerr st1))"

definition PATCH_api_tasks_status :: "env \<Rightarrow> js_string \<Rightarrow> js_string \<Rightarrow> json option \<Rightarrow> server_state \<Rightarrow> response \<times> server_state" where
  "PATCH_api_tasks_status env userId taskId status st =
     (if \<not> valid_status status then (Response 400 (error_json ''invalid status''), st)
      else PATCH_status_get_cb env userId taskId status
             (db_get_task_id (db_err1 env) taskId userId (tasks_table st)) st)"

text \<open>\<^verbatim>\<open>app.patch('/api/tasks/:id', ...)\<close>\<close>

definition PATCH_title_run_cb :: "env \<Rightarrow> js_string \<Rightarrow> js_string \<Rightarrow> json option \<Rightarrow> nat db_result \<Rightarrow> server_state \<Rightarrow> response \<times> server_state" where
  "PATCH_title_run_cb env userId taskId title uerr st =
     (case uerr of
        DbError \<Rightarrow> (Response 500 (error_json ''DB error''), st)
      | DbOk _ \<Rightarrow>
          (let st1 = invalidateCache userId st;
               st2 = persistLog env (js ''PATCH'') (js ''/api/tasks/'' @ taskId) userId
                       (JObj [(''title'', JStr (string_of title))]) st1
           in (Response 200
                 (JObj [(''id'', JStr taskId), (''title'', JStr (string_of title))]), st2)))"

definition PATCH_title_get_cb :: "env \<Rightarrow> js_string \<Rightarrow> js_string \<Rightarrow> json option \<Rightarrow> js_string option db_result \<Rightarrow> server_state \<Rightarrow> response \<times> server_state" where
  "PATCH_title_get_cb env userId taskId title res st =
     (case res of
        DbError \<Rightarrow> (Response 500 (error_json ''DB error''), st)
      | DbOk None \<Rightarrow> (Response 404 (error_json ''task not found''), st)
      | DbOk (Some row) \<Rightarrow>
          (let (uerr, st1) = store_write userId
                 (db_update_title (db_err2 env) (current_timestamp env)
                    (trim (string_of title)) taskId (tasks_table st)) st
           in PATCH_title_run_cb env userId taskId title uerr st1))"

definition PATCH_api_tasks :: "env \<Rightarrow> js_string \<Rightarrow> js_string \<Rightarrow> json option \<Rightarrow> server_state \<Rightarrow> response \<times> server_state" where
  "PATCH_api_tasks env userId taskId title st =
     (if \<not> truthy title \<or> \<not> is_string title
      then (Response 400 (error_json ''title required''), st)
      else PATCH_title_get_cb env userId taskId title
             (db_get_task_id (db_err1 env) taskId userId (tasks_table st)) st)"

text \<open>\<^verbatim>\<open>app.delete('/api/tasks/:id', ...)\<close>\<close>

definition DELETE_api_tasks_cb :: "env \<Rightarrow> js_string \<Rightarrow> js_string \<Rightarrow> nat db_result \<Rightarrow> server_state \<Rightarrow> response \<times> server_state" where
  "DELETE_api_tasks_cb env userId taskId res st =
     (case res of
        DbError \<Rightarrow> (Response 500 (error_json ''DB error''), st)
      | DbOk changes \<Rightarrow>
          if changes = 0 then (Response 404 (error_json ''not found''), st)
          else
            (let st1 = invalidateCache userId st;
                 st2 = persistLog env (js ''DELETE'') (js ''/api/tasks/'' @ taskId) userId
                         (JObj []) st1
             in (Response 200 (JObj [(''success'', JBool True)]), st2)))"

definition DELETE_api_tasks :: "env \<Rightarrow> js_string \<Rightarrow> js_string \<Rightarrow> server_state \<Rightarrow> response \<times> server_state" where
  "DELETE_api_tasks env userId taskId st =
     (let (res, st1) = store_write userId
            (db_delete_task (db_err1 env) taskId userId (tasks_table st)) st
      in DELETE_api_tasks_cb env userId taskId res st1)"

text \<open>The five task operations as one request type, and a server handling them one at a time.\<close>

datatype request =
    CreateTask "json option"
  | ListTasks
  | UpdateStatus js_string "json option"
  | EditTitle js_string "json option"
  | DeleteTask js_string

fun handle :: "engine \<Rightarrow> env \<Rightarrow> js_string \<Rightarrow> request \<Rightarrow> server_state \<Rightarrow> response \<times> server_state" where
  "handle eng env userId (CreateTask title) st = POST_api_tasks env userId title st"
| "handle eng env userId ListTasks st = GET_api_tasks eng env userId st"
| "handle eng env userId (UpdateStatus taskId status) st =
     PATCH_api_tasks_status env userId taskId status st"
| "handle eng env userId (EditTitle taskId title) st = PATCH_api_tasks env userId taskId title st"
| "handle eng env userId (DeleteTask taskId) st = DELETE_api_tasks env userId taskId st"

fun serve :: "engine \<Rightarrow> (env \<times> js_string \<times> request) list \<Rightarrow> server_state \<Rightarrow> server_state" where
  "serve eng [] st = st"
| "serve eng ((env, userId, req) # rest) st = serve eng rest (snd (handle eng env userId req st))"

section \<open>The routes of \<^verbatim>\<open>server-pg.js\<close> (Postgres)\<close>

text \<open>
  The handlers are \<^verbatim>\<open>async\<close> functions. \<^verbatim>\<open>await pool.connect()\<close> stands before the
  \<^verbatim>\<open>try\<close>: when it rejects, the handler's promise rejects and the handler has sent no
  response (\<open>NoResponse\<close>). Every failure of a statement inside the \<^verbatim>\<open>try\<close> ends in the
  \<^verbatim>\<open>catch\<close>, which answers 500 \<^verbatim>\<open>Server error\<close>.
\<close>

definition json_of_created :: "task \<Rightarrow> json" where
  "json_of_created t =
     JObj [(''id'', JStr (task_id t)), (''user_id'', JStr (task_user_id t)),
           (''title'', JStr (task_title t)), (''status'', JStr (task_status t)),
           (''created_at'', JTime (task_created_at t))]"

definition POST_api_tasks_pg :: "env \<Rightarrow> js_string \<Rightarrow> json option \<Rightarrow> server_state \<Rightarrow> response \<times> server_state" where
  "POST_api_tasks_pg env userId title st =
     (if \<not> truthy title \<or> \<not> is_string title \<or> length (trim (string_of title)) = 0
      then (Response 400 (error_json ''title required''), st)
      else if connect_err env then (NoResponse, st)
      else
        (let row = new_task env userId (trim (string_of title));
             (r, st1) = store_insert userId (db_insert_task (db_err1 env) row (tasks_table st)) st
         in case r of
              DbError \<Rightarrow> (Response 500 (error_json ''Server error''), st1)
            | DbOk _ \<Rightarrow>
                (let st2 = invalidateCache userId st1;
                     st3 = persistLog env (js ''POST'') (js ''/api/tasks'') userId
                             (JObj [(''title'', JStr (string_of title))]) st2
                 in (Response 200 (json_of_created row), st3))))"

definition GET_api_tasks_pg :: "engine \<Rightarrow> env \<Rightarrow> js_string \<Rightarrow> server_state \<Rightarrow> response \<times> server_state" where
  "GET_api_tasks_pg eng env userId st =
     (case getCachedTasks (date_now_get env) userId st of
        (Some cached, st1) \<Rightarrow>
          if connect_err env then (NoResponse, st1)
          else
            (let st2 = persistLog env (js ''GET'') (js ''/api/tasks (cached)'') userId
                         (JObj []) st1
             in (Response 200 (tasks_json True cached), st2))
      | (None, st1) \<Rightarrow>
          if connect_err env then (NoResponse, st1)
          else
            (case db_all_tasks eng (db_err1 env) userId (tasks_table st1) of
               DbError \<Rightarrow> (Response 500 (error_json ''Server error''), st1)
             | DbOk rows \<Rightarrow>
                 (let st2 = setCachedTasks (date_now_set env) userId rows st1;
                      st3 = persistLog env (js ''GET'') (js ''/api/tasks'') userId (JObj []) st2
                  in (Response 200 (tasks_json False rows), st3))))"

definition PATCH_api_tasks_status_pg :: "env \<Rightarrow> js_string \<Rightarrow> js_string \<Rightarrow> json option \<Rightarrow> server_state \<Rightarrow> response \<times> server_state" where
  "PATCH_api_tasks_status_pg env userId taskId status st =
     (if \<not> valid_status status then (Response 400 (error_json ''invalid status''), st)
      else if connect_err env then (NoResponse, st)
      else
        (case db_get_task_id (db_err1 env) taskId userId (tasks_table st) of
           DbError \<Rightarrow> (Response 500 (error_json ''Server error''), st)
         | DbOk None \<Rightarrow> (Response 404 (error_json ''task not found''), st)
         | DbOk (Some row) \<Rightarrow>
             (let (r, st1) = store_write userId
                    (db_update_status (db_err2 env) (current_timestamp env) (string_of status)
                       taskId (tasks_table st)) st
              in case r of
                   DbError \<Rightarrow> (Response 500 (error_json ''Server error''), st1)
                 | DbOk _ \<Rightarrow>
                     (let st2 = invalidateCache userId st1;
                          st3 = persistLog env (js ''PATCH'')
                                  (js ''/api/tasks/'' @ taskId @ js ''/status'') userId
                                  (JObj [(''status'', JStr (string_of status))]) st2
                      in (Response 200
                            (JObj [(''id'', JStr taskId), (''status'', JStr (string_of status))]),
                          st3)))))"

definition PATCH_api_tasks_pg :: "env \<Rightarrow> js_string \<Rightarrow> js_string \<Rightarrow> json option \<Rightarrow> server_state \<Rightarrow> response \<times> server_state" where
  "PATCH_api_tasks_pg env userId taskId title st =
     (if \<not> truthy title \<or> \<not> is_string title
      then (Response 400 (error_json ''title required''), st)
      else if connect_err env then (NoResponse, st)
      else
        (case db_get_task_id (db_err1 env) taskId userId (tasks_table st) of
           DbError \<Rightarrow> (Response 500 (error_json ''Server error''), st)
         | DbOk None \<Rightarrow> (Response 404 (error_json ''task not found''), st)
         | DbOk (Some row) \<Rightarrow>
             (let (r, st1) = store_write userId
                    (db_update_title (db_err2 env) (current_timestamp env)
                       (trim (string_of title)) taskId (tasks_table st)) st
              in case r of
                   DbError \<Rightarrow> (Response 500 (error_json ''Server error''), st1)
                 | DbOk _ \<Rightarrow>
                     (let st2 = invalidateCache userId st1;
                          st3 = persistLog env (js ''PATCH'') (js ''/api/tasks/'' @ taskId) userId
                                  (JObj [(''title'', JStr (string_of title))]) st2
                      in (Response 200
                            (JObj [(''id'', JStr taskId), (''title'', JStr (string_of title))]),
                          st3)))))"

definition DELETE_api_tasks_pg :: "env \<Rightarrow> js_string \<Rightarrow> js_string \<Rightarrow> server_state \<Rightarrow> response \<times> server_state" where
  "DELETE_api_tasks_pg env userId taskId st =
     (if connect_err env then (NoResponse, st)
      else
        (let (r, st1) = store_write userId
               (db_delete_task (db_err1 env) taskId userId (tasks_table st)) st
         in case r of
              DbError \<Rightarrow> (Response 500 (error_json ''Server error''), st1)
            | DbOk changes \<Rightarrow>
                if changes = 0 then (Response 404 (error_json ''not found''), st1)
                else
                  (let st2 = invalidateCache userId st1;
                       st3 = persistLog env (js ''DELETE'') (js ''/api/tasks/'' @ taskId) userId
                               (JObj []) st2
                   in (Response 200 (JObj [(''success'', JBool True)]), st3))))"

section \<open>Notions the statements use\<close>

definition is_success :: "response \<Rightarrow> bool" where
  "is_success r = (case r of Response code b \<Rightarrow> code = 200 | NoResponse \<Rightarrow> False)"

fun json_keys :: "json \<Rightarrow> string list" where
  "json_keys (JObj kvs) = map fst kvs"
| "json_keys v = []"

fun response_keys :: "response \<Rightarrow> string list" where
  "response_keys (Response code b) = json_keys b"
| "response_keys NoResponse = []"

text \<open>
  \<open>invalidated_then_audited env u meth path body s s'\<close>: from state \<open>s\<close> the user's
  cache entry is removed and then \<open>persistLog\<close> is called, and \<open>s'\<close> is the result. In
  the state in which the entry is gone the table is still that of \<open>s\<close> and the log has no
  row of this request yet; \<open>s'\<close> has the table of \<open>s\<close>, no entry for the user, and the log
  row unless its insert failed.

  \<open>written_invalidated_audited env u tbl meth path body st st'\<close>: the table becomes
  \<open>tbl\<close> first, with the cache and the log as they were in \<open>st\<close>, and from that state
  the entry is removed and the audit row written as above.
\<close>

definition invalidated_then_audited :: "env \<Rightarrow> js_string \<Rightarrow> js_string \<Rightarrow> js_string \<Rightarrow> json \<Rightarrow> server_state \<Rightarrow> server_state \<Rightarrow> bool" where
  "invalidated_then_audited env u meth path body s s' =
     (s' = persistLog env meth path u body (invalidateCache u s)
      \<and> tasks_table (invalidateCache u s) = tasks_table s
      \<and> cache (invalidateCache u s) = (cache s)(u := None)
      \<and> logs_table (invalidateCache u s) = logs_table s
      \<and> tasks_table s' = tasks_table s
      \<and> cache s' = (cache s)(u := None)
      \<and> logs_table s' =
          (if log_prepare_err env \<or> log_err env then logs_table s
           else logs_table s @
                  [\<lparr>log_method = meth, log_path = path,
                    log_user_id = (if u = [] then None else Some u),
                    log_body = safeJsonString env body,
                    log_created_at = current_timestamp env\<rparr>])
      \<and> trace s' = trace s @ [EvCacheDelete u, EvAudit meth path])"

definition written_invalidated_audited :: "env \<Rightarrow> js_string \<Rightarrow> task list \<Rightarrow> js_string \<Rightarrow> js_string \<Rightarrow> json \<Rightarrow> server_state \<Rightarrow> server_state \<Rightarrow> bool" where
  "written_invalidated_audited env u tbl meth path body st st' =
     (invalidated_then_audited env u meth path body
        (st\<lparr>tasks_table := tbl, trace := trace st @ [EvStoreWrite u]\<rparr>) st'
      \<and> tasks_table st' = tbl
      \<and> cache st' = (cache st)(u := None)
      \<and> trace st' = trace st @ [EvStoreWrite u, EvCacheDelete u, EvAudit meth path])"

text \<open>\<^verbatim>\<open>id TEXT PRIMARY KEY\<close>: no two rows of the table share an id.\<close>

definition primary_key :: "task list \<Rightarrow> bool" where
  "primary_key tbl = distinct (map task_id tbl)"

text \<open>
  A snapshot is fresh for a table when it is an answer the list query could give on that
  table: the selected columns of exactly the user's rows, \<^verbatim>\<open>created_at\<close> never
  increasing. A state is coherent when its table respects the primary key and every cache
  entry, expired or not, holds a fresh snapshot.
\<close>

definition fresh_snapshot :: "task list \<Rightarrow> js_string \<Rightarrow> task_row list \<Rightarrow> bool" where
  "fresh_snapshot tbl userId rows =
     (mset rows = mset (map row_of_task (filter (\<lambda>t. task_user_id t = userId) tbl))
      \<and> sorted_wrt (\<lambda>a b. row_created_at b \<le> row_created_at a) rows)"

definition coherent :: "server_state \<Rightarrow> bool" where
  "coherent st =
     (primary_key (tasks_table st)
      \<and> (\<forall>userId entry. cache st userId = Some entry \<longrightarrow>
            fresh_snapshot (tasks_table st) userId (entry_tasks entry)))"

section \<open>Concrete engines, requests and states\<close>

text \<open>
  Two engines that both satisfy \<open>order_by_created_at_desc\<close>: one keeps rows of equal
  \<^verbatim>\<open>created_at\<close> in insertion order, the other reverses them.
\<close>

definition stable_engine :: engine where
  "stable_engine rows = sort_key (\<lambda>t. - int (task_created_at t)) rows"

definition reversing_engine :: engine where
  "reversing_engine rows = rev (sort_key task_created_at rows)"

definition alice :: js_string where
  "alice = js ''alice''"

definition bob :: js_string where
  "bob = js ''bob''"

definition quiet_env :: env where
  "quiet_env =
     \<lparr>date_now_get = 1000, date_now_set = 1002, current_timestamp = 1, uuidv4 = js ''id-1'',
      db_err1 = False, db_err2 = False, log_err = False, log_prepare_err = False,
      stringify_throws = False, connect_err = False\<rparr>"

definition later_env :: env where
  "later_env =
     quiet_env\<lparr>date_now_get := 2000, date_now_set := 2001, current_timestamp := 2,
       uuidv4 := js ''id-2''\<rparr>"

definition last_env :: env where
  "last_env = later_env\<lparr>date_now_get := 3000, date_now_set := 3001, current_timestamp := 3\<rparr>"

definition task_a :: task where
  "task_a = \<lparr>task_id = js ''t1'', task_user_id = alice, task_title = js ''buy milk'',
             task_status = js ''TODO'', task_created_at = 5, task_updated_at = 5\<rparr>"

definition task_b :: task where
  "task_b = \<lparr>task_id = js ''t2'', task_user_id = alice, task_title = js ''walk dog'',
             task_status = js ''TODO'', task_created_at = 5, task_updated_at = 5\<rparr>"

definition state_ab :: server_state where
  "state_ab = initial_state\<lparr>tasks_table := [task_a, task_b]\<rparr>"

text \<open>Alice creates a task; later she marks it done.\<close>

definition created_state :: server_state where
  "created_state =
     serve stable_engine [(quiet_env, alice, CreateTask (Some (JStr (js ''buy milk''))))]
       initial_state"

definition mark_done :: request where
  "mark_done = UpdateStatus (js ''id-1'') (Some (JStr (js ''DONE'')))"

definition updated_state :: server_state where
  "updated_state = snd (handle stable_engine later_env alice mark_done created_state)"

text \<open>Alice lists her tasks after creating one, so that she has a cache entry.\<close>

definition listed_state :: server_state where
  "listed_state = snd (handle stable_engine later_env alice ListTasks created_state)"

text \<open>The same two requests handled by \<^verbatim>\<open>server-pg.js\<close>.\<close>

definition pg_listed_state :: server_state where
  "pg_listed_state =
     snd (GET_api_tasks_pg stable_engine later_env alice
            (snd (POST_api_tasks_pg quiet_env alice (Some (JStr (js ''buy milk'')))
                    initial_state)))"

text \<open>
  An interleaving of two requests of \<^verbatim>\<open>server.js\<close>. The list handler returns to the
  event loop as soon as it has called \<^verbatim>\<open>db.all\<close>; its callback runs when the
  database has answered, and other requests are served in between.
  \<^item> \<open>race_s1\<close>: Alice's first list request runs \<open>getCachedTasks\<close>, misses, and
    calls \<^verbatim>\<open>db.all\<close>;
  \<^item> \<open>race_answer\<close>: the database evaluates that query on the table as it is;
  \<^item> \<open>race_s2\<close>: Alice's status update is handled, from its validation to its
    response;
  \<^item> \<open>race_s3\<close>: the callback of the first list request runs with the rows the
    database read for it.
\<close>

definition race_s1 :: server_state where
  "race_s1 = snd (getCachedTasks (date_now_get quiet_env) alice created_state)"

definition race_answer :: "task_row list db_result" where
  "race_answer = db_all_tasks stable_engine (db_err1 quiet_env) alice (tasks_table race_s1)"

definition race_s2 :: server_state where
  "race_s2 = snd (handle stable_engine later_env alice mark_done race_s1)"

definition race_s3 :: server_state where
  "race_s3 = snd (GET_api_tasks_cb later_env alice race_answer race_s2)"

section \<open>Auxiliary facts\<close>

lemmas sqlite_route_defs =
  POST_api_tasks_def POST_api_tasks_cb_def GET_api_tasks_def GET_api_tasks_cb_def
  PATCH_api_tasks_status_def PATCH_status_get_cb_def PATCH_status_run_cb_def
  PATCH_api_tasks_def PATCH_title_get_cb_def PATCH_title_run_cb_def
  DELETE_api_tasks_def DELETE_api_tasks_cb_def

lemmas store_defs =
  store_write_def store_insert_def db_insert_task_def db_get_task_id_def db_update_status_def
  db_update_title_def db_delete_task_def db_all_tasks_def

lemmas cache_defs =
  getCachedTasks_def setCachedTasks_def invalidateCache_def CACHE_TTL_MS_def

lemmas audit_defs =
  persistLog_def safeJsonString_def JSON_stringify_def

subsection \<open>\<open>trim\<close>\<close>

lemma trim_whitespace_only: "list_all is_js_whitespace s \<Longrightarrow> trim s = []"
proof -
  assume "list_all is_js_whitespace s"
  then have "dropWhile is_js_whitespace s = []"
    by (induction s) simp_all
  then show ?thesis
    by (simp add: trim_def del: dropWhile_eq_Nil_conv)
qed

lemma dropWhile_full_length:
  "length (dropWhile P xs) = length xs \<Longrightarrow> xs \<noteq> [] \<Longrightarrow> \<not> P (hd xs)"
proof (cases xs)
  case Nil
  assume "xs \<noteq> []"
  with Nil show ?thesis by simp
next
  case (Cons x rest)
  assume len: "length (dropWhile P xs) = length xs"
  show ?thesis
  proof
    assume "P (hd xs)"
    with Cons have "dropWhile P xs = dropWhile P rest" by simp
    moreover have "length (dropWhile P rest) \<le> length rest" by (rule length_dropWhile_le)
    ultimately show False using len Cons by simp
  qed
qed

lemma trim_changes:
  assumes "s \<noteq> []" and "is_js_whitespace (hd s) \<or> is_js_whitespace (last s)"
  shows "trim s \<noteq> s"
proof
  assume eq: "trim s = s"
  let ?d = "dropWhile is_js_whitespace s"
  have l1: "length (dropWhile is_js_whitespace (rev ?d)) \<le> length (rev ?d)"
    by (rule length_dropWhile_le)
  have l2: "length ?d \<le> length s" by (rule length_dropWhile_le)
  have "length (trim s) = length (dropWhile is_js_whitespace (rev ?d))"
    by (simp add: trim_def)
  with eq l1 l2 have full: "length ?d = length s"
    and full2: "length (dropWhile is_js_whitespace (rev ?d)) = length (rev ?d)"
    by simp_all
  from full assms(1) have head: "\<not> is_js_whitespace (hd s)"
    by (rule dropWhile_full_length)
  with assms(1) have "?d = s" by (cases s) simp_all
  with full2 assms(1) have "\<not> is_js_whitespace (hd (rev s))"
    using dropWhile_full_length [of is_js_whitespace "rev s"] by simp
  with assms(1) have "\<not> is_js_whitespace (last s)" by (simp add: hd_rev)
  with head assms(2) show False by blast
qed

subsection \<open>What the cache functions and the audit log leave alone\<close>

lemma trace_invalidate: "trace (invalidateCache u st) = trace st @ [EvCacheDelete u]"
  by (simp add: invalidateCache_def)

lemma trace_persistLog: "trace (persistLog env m p u b st) = trace st @ [EvAudit m p]"
  by (simp add: persistLog_def Let_def)

lemma persistLog_frame:
  "tasks_table (persistLog env m p u b st) = tasks_table st"
  "cache (persistLog env m p u b st) = cache st"
  "cacheHits (persistLog env m p u b st) = cacheHits st"
  "cacheMisses (persistLog env m p u b st) = cacheMisses st"
  by (simp_all add: persistLog_def Let_def)

lemma cache_invalidate_self: "cache (invalidateCache u st) u = None"
  by (simp add: invalidateCache_def)

lemma tasks_table_invalidate: "tasks_table (invalidateCache u st) = tasks_table st"
  by (simp add: invalidateCache_def)

lemma getCachedTasks_frame:
  "tasks_table (snd (getCachedTasks now u st)) = tasks_table st"
  "cache (snd (getCachedTasks now u st)) = cache st"
  by (simp_all add: getCachedTasks_def split: option.splits)

lemma new_task_sel:
  "task_id (new_task env u title) = uuidv4 env"
  "task_user_id (new_task env u title) = u"
  by (simp_all add: new_task_def)

subsection \<open>The ownership check\<close>

lemma found_owner:
  "db_get_task_id err k u tbl = DbOk (Some r) \<Longrightarrow>
   \<exists>t \<in> set tbl. task_id t = k \<and> task_user_id t = u"
proof -
  assume a: "db_get_task_id err k u tbl = DbOk (Some r)"
  then have "filter (\<lambda>t. task_id t = k \<and> task_user_id t = u) tbl \<noteq> []"
    by (auto simp: db_get_task_id_def split: if_splits list.splits)
  then show ?thesis
    by (auto simp: filter_empty_conv)
qed

lemma matched_changes:
  "db_get_task_id err k u tbl = DbOk (Some r) \<Longrightarrow>
   length (filter (\<lambda>t. task_id t = k) tbl) \<noteq> 0"
proof -
  assume "db_get_task_id err k u tbl = DbOk (Some r)"
  then have "\<exists>t \<in> set tbl. task_id t = k \<and> task_user_id t = u"
    by (rule found_owner)
  then show ?thesis
    by (auto simp: filter_empty_conv)
qed

lemma primary_key_unique:
  "primary_key tbl \<Longrightarrow> t \<in> set tbl \<Longrightarrow> x \<in> set tbl \<Longrightarrow> task_id x = task_id t \<Longrightarrow> x = t"
  by (simp add: primary_key_def distinct_map inj_on_def)

lemma not_owner_no_match:
  assumes "primary_key tbl" "t \<in> set tbl" "task_user_id t \<noteq> u2"
  shows "filter (\<lambda>x. task_id x = task_id t \<and> task_user_id x = u2) tbl = []"
  using assms by (auto simp: filter_empty_conv dest: primary_key_unique)

lemma absent_no_match:
  "filter (\<lambda>x. task_id x = k \<and> task_user_id x = u2) (filter (\<lambda>x. task_id x \<noteq> k) tbl) = []"
  by (auto simp: filter_empty_conv)

subsection \<open>The engines\<close>

lemma stable_engine_ok: "order_by_created_at_desc stable_engine"
proof -
  have "sorted (map (\<lambda>t. - int (task_created_at t)) (stable_engine rows))" for rows
    unfolding stable_engine_def by (rule sorted_sort_key)
  then have "sorted_wrt (\<lambda>a b. task_created_at b \<le> task_created_at a) (stable_engine rows)"
    for rows
    by (simp add: sorted_map)
  then show ?thesis
    by (simp add: order_by_created_at_desc_def) (simp add: stable_engine_def)
qed

lemma reversing_engine_ok: "order_by_created_at_desc reversing_engine"
proof -
  have "sorted (map task_created_at (sort_key task_created_at rows))" for rows :: "task list"
    by (rule sorted_sort_key)
  then have "sorted_wrt (\<lambda>a b. task_created_at b \<le> task_created_at a) (reversing_engine rows)"
    for rows
    by (simp add: sorted_map reversing_engine_def sorted_wrt_rev)
  then show ?thesis
    by (simp add: order_by_created_at_desc_def) (simp add: reversing_engine_def)
qed

lemma sorted_rows:
  "sorted_wrt (\<lambda>a b. task_created_at b \<le> task_created_at a) ts \<Longrightarrow>
   sorted_wrt (\<lambda>a b. row_created_at b \<le> row_created_at a) (map row_of_task ts)"
  by (simp add: sorted_wrt_map row_of_task_def)

lemma engine_set:
  "order_by_created_at_desc eng \<Longrightarrow> set (eng rows) = set rows"
  unfolding order_by_created_at_desc_def by (metis mset_eq_setD)

lemma engine_fresh:
  "order_by_created_at_desc eng \<Longrightarrow>
   fresh_snapshot tbl v (map row_of_task (eng (filter (\<lambda>t. task_user_id t = v) tbl)))"
  by (simp add: fresh_snapshot_def order_by_created_at_desc_def sorted_rows)

subsection \<open>A list request that misses the cache\<close>

lemma GET_miss:
  assumes "fst (getCachedTasks (date_now_get env) userId st) = None" and "\<not> db_err1 env"
    and "rows = map row_of_task (eng (filter (\<lambda>t. task_user_id t = userId) (tasks_table st)))"
  shows "fst (GET_api_tasks eng env userId st) = Response 200 (tasks_json False rows)"
    and "cache (snd (GET_api_tasks eng env userId st)) userId
         = Some \<lparr>entry_ts = date_now_set env, entry_tasks = rows\<rparr>"
    and "tasks_table (snd (GET_api_tasks eng env userId st)) = tasks_table st"
proof -
  obtain st1 where miss: "getCachedTasks (date_now_get env) userId st = (None, st1)"
    using assms(1) by (cases "getCachedTasks (date_now_get env) userId st") simp
  then have tbl: "tasks_table st1 = tasks_table st"
    by (auto simp: getCachedTasks_def split: option.splits if_splits)
  show "fst (GET_api_tasks eng env userId st) = Response 200 (tasks_json False rows)"
    using miss tbl assms(2,3)
    by (simp add: GET_api_tasks_def GET_api_tasks_cb_def db_all_tasks_def Let_def)
  show "cache (snd (GET_api_tasks eng env userId st)) userId
         = Some \<lparr>entry_ts = date_now_set env, entry_tasks = rows\<rparr>"
    using miss tbl assms(2,3)
    by (simp add: GET_api_tasks_def GET_api_tasks_cb_def db_all_tasks_def Let_def
        persistLog_frame setCachedTasks_def)
  show "tasks_table (snd (GET_api_tasks eng env userId st)) = tasks_table st"
    using miss tbl assms(2,3)
    by (simp add: GET_api_tasks_def GET_api_tasks_cb_def db_all_tasks_def Let_def
        persistLog_frame setCachedTasks_def)
qed

text \<open>
  With a connection from the pool and statements that succeed, the Postgres handlers for
  listing and for editing a title compute what the SQLite handlers compute.
\<close>

lemma GET_pg_same:
  "\<not> connect_err env \<Longrightarrow> \<not> db_err1 env \<Longrightarrow>
   GET_api_tasks_pg eng env userId st = GET_api_tasks eng env userId st"
  by (simp add: GET_api_tasks_pg_def GET_api_tasks_def GET_api_tasks_cb_def db_all_tasks_def
      split: prod.splits option.splits)

lemma PATCH_title_pg_same:
  "\<not> connect_err env \<Longrightarrow> \<not> db_err1 env \<Longrightarrow> \<not> db_err2 env \<Longrightarrow>
   PATCH_api_tasks_pg env userId taskId title st = PATCH_api_tasks env userId taskId title st"
  by (simp add: PATCH_api_tasks_pg_def PATCH_api_tasks_def PATCH_title_get_cb_def
      PATCH_title_run_cb_def db_get_task_id_def db_update_title_def store_write_def Let_def
      split: list.splits)

section \<open>Properties of the cache\<close>

text \<open>
  C2. \<open>getCachedTasks\<close> returns a snapshot exactly when the user has an entry whose
  age \<open>now - ts\<close> is strictly below 30000 ms, and then it is the stored snapshot; a user
  with no entry and a user with an expired entry both get \<^verbatim>\<open>null\<close>, and both count as
  a miss. An entry written at \<open>t0\<close> is served at \<open>t0 + 29000\<close> and not at
  \<open>t0 + 31000\<close>, and not at \<open>t0 + 30000\<close> either.
\<close>

theorem getCachedTasks_ttl:
  "((fst (getCachedTasks now userId st) = Some snapshot) =
      (\<exists>entry. cache st userId = Some entry \<and> entry_tasks entry = snapshot
         \<and> now - entry_ts entry < 30000))
   \<and> ((fst (getCachedTasks now userId st) = None) =
      (cache st userId = None
       \<or> (\<exists>entry. cache st userId = Some entry \<and> 30000 \<le> now - entry_ts entry)))
   \<and> snd (getCachedTasks now userId st) =
      (if fst (getCachedTasks now userId st) = None
       then st\<lparr>cacheMisses := cacheMisses st + 1\<rparr>
       else st\<lparr>cacheHits := cacheHits st + 1\<rparr>)
   \<and> fst (getCachedTasks (t0 + 29000) userId (setCachedTasks t0 userId rows st)) = Some rows
   \<and> fst (getCachedTasks (t0 + 30000) userId (setCachedTasks t0 userId rows st)) = None
   \<and> fst (getCachedTasks (t0 + 31000) userId (setCachedTasks t0 userId rows st)) = None"
  by (auto simp: getCachedTasks_def setCachedTasks_def CACHE_TTL_MS_def split: option.splits)

text \<open>
  C9. \<open>invalidateCache\<close> is a total function on states (it has no error result); after
  it the user has no entry; a second call leaves the cache as the first one left it; on a
  user with no entry the cache is not changed at all; and no other user's entry is
  touched.
\<close>

theorem invalidateCache_idempotent:
  "cache (invalidateCache userId st) userId = None
   \<and> cache (invalidateCache userId (invalidateCache userId st))
       = cache (invalidateCache userId st)
   \<and> (cache st userId = None \<longrightarrow> cache (invalidateCache userId st) = cache st)
   \<and> (other \<noteq> userId \<longrightarrow> cache (invalidateCache userId st) other = cache st other)"
  by (auto simp: invalidateCache_def)

theorem invalidateCache_idempotent_witness:
  "cache initial_state (js ''u1'') = None
   \<and> js ''u2'' \<noteq> js ''u1''
   \<and> cache (invalidateCache (js ''u1'') initial_state) = cache initial_state
   \<and> cache (invalidateCache (js ''u1'') (invalidateCache (js ''u1'') initial_state)) (js ''u2'')
       = cache initial_state (js ''u2'')"
  using invalidateCache_idempotent [of "js ''u1''" initial_state "js ''u2''"]
  by (simp add: initial_state_def js_def)

section \<open>Title validation\<close>

text \<open>
  C6. \<^verbatim>\<open>POST /api/tasks\<close> answers 400 \<^verbatim>\<open>title required\<close> to a title that is empty
  or made of whitespace only, and to a title that is missing or not a string;
  \<^verbatim>\<open>PATCH /api/tasks/:id\<close> answers the same to the empty title and to a title that is
  missing or not a string. In each case the state after the request is the state before
  it: no row written, no cache entry removed, no log row, no counter moved. Both servers
  validate with the same text.
\<close>

theorem title_validation:
  "(list_all is_js_whitespace s \<longrightarrow>
      POST_api_tasks env userId (Some (JStr s)) st
        = (Response 400 (error_json ''title required''), st)
      \<and> POST_api_tasks_pg env userId (Some (JStr s)) st
        = (Response 400 (error_json ''title required''), st))
   \<and> (\<not> is_string title \<longrightarrow>
      POST_api_tasks env userId title st = (Response 400 (error_json ''title required''), st)
      \<and> PATCH_api_tasks env userId taskId title st
        = (Response 400 (error_json ''title required''), st))
   \<and> PATCH_api_tasks env userId taskId (Some (JStr [])) st
        = (Response 400 (error_json ''title required''), st)
   \<and> PATCH_api_tasks_pg env userId taskId (Some (JStr [])) st
        = (Response 400 (error_json ''title required''), st)"
  by (simp add: POST_api_tasks_def POST_api_tasks_pg_def PATCH_api_tasks_def
      PATCH_api_tasks_pg_def trim_whitespace_only)

theorem title_validation_witness:
  "list_all is_js_whitespace [0x20, 0x9, 0x3000] \<and> \<not> is_string (Some (JNum 7))
   \<and> POST_api_tasks quiet_env alice (Some (JStr [0x20, 0x9, 0x3000])) created_state
       = (Response 400 (error_json ''title required''), created_state)
   \<and> POST_api_tasks quiet_env alice (Some (JNum 7)) created_state
       = (Response 400 (error_json ''title required''), created_state)
   \<and> PATCH_api_tasks quiet_env alice (js ''id-1'') (Some (JNum 7)) created_state
       = (Response 400 (error_json ''title required''), created_state)"
  using title_validation [where s = "[0x20, 0x9, 0x3000]" and env = quiet_env
      and userId = alice and st = created_state and title = "Some (JNum 7)"
      and taskId = "js ''id-1''"]
  by (simp add: is_js_whitespace_def)

section \<open>The order of effects inside one mutating request\<close>

lemma invalidated_then_audited_run:
  "invalidated_then_audited env u meth path body s
     (persistLog env meth path u body (invalidateCache u s))"
  by (simp add: invalidated_then_audited_def persistLog_def invalidateCache_def Let_def)

lemma written_invalidated_audited_run:
  "written_invalidated_audited env u tbl meth path body st
     (persistLog env meth path u body
        (invalidateCache u (st\<lparr>tasks_table := tbl, trace := trace st @ [EvStoreWrite u]\<rparr>)))"
  by (simp add: written_invalidated_audited_def invalidated_then_audited_run persistLog_frame
      tasks_table_invalidate trace_persistLog trace_invalidate)
     (simp add: invalidateCache_def)

lemma effects_POST:
  "(if is_success (fst (POST_api_tasks env u title st))
    then written_invalidated_audited env u
           (tasks_table st @ [new_task env u (trim (string_of title))])
           (js ''POST'') (js ''/api/tasks'') (JObj [(''title'', JStr (string_of title))])
           st (snd (POST_api_tasks env u title st))
    else snd (POST_api_tasks env u title st) = st)"
  by (simp add: POST_api_tasks_def POST_api_tasks_cb_def store_insert_def db_insert_task_def
      is_success_def Let_def written_invalidated_audited_run)

lemma effects_PATCH_status:
  "(if is_success (fst (PATCH_api_tasks_status env u k status st))
    then written_invalidated_audited env u
           (map (\<lambda>x. if task_id x = k
                     then x\<lparr>task_status := string_of status,
                            task_updated_at := current_timestamp env\<rparr>
                     else x) (tasks_table st))
           (js ''PATCH'') (js ''/api/tasks/'' @ k @ js ''/status'')
           (JObj [(''status'', JStr (string_of status))])
           st (snd (PATCH_api_tasks_status env u k status st))
    else snd (PATCH_api_tasks_status env u k status st) = st)"
proof (cases "db_get_task_id (db_err1 env) k u (tasks_table st)")
  case DbError
  then show ?thesis
    by (simp add: PATCH_api_tasks_status_def PATCH_status_get_cb_def is_success_def)
next
  case (DbOk found)
  show ?thesis
  proof (cases found)
    case None
    with DbOk show ?thesis
      by (simp add: PATCH_api_tasks_status_def PATCH_status_get_cb_def is_success_def)
  next
    case (Some r)
    with DbOk have "length (filter (\<lambda>t. task_id t = k) (tasks_table st)) \<noteq> 0"
      using matched_changes by blast
    with DbOk Some show ?thesis
      by (simp add: PATCH_api_tasks_status_def PATCH_status_get_cb_def PATCH_status_run_cb_def
          store_write_def db_update_status_def is_success_def Let_def
          written_invalidated_audited_run)
  qed
qed

lemma effects_PATCH_title:
  "(if is_success (fst (PATCH_api_tasks env u k title st))
    then written_invalidated_audited env u
           (map (\<lambda>x. if task_id x = k
                     then x\<lparr>task_title := trim (string_of title),
                            task_updated_at := current_timestamp env\<rparr>
                     else x) (tasks_table st))
           (js ''PATCH'') (js ''/api/tasks/'' @ k) (JObj [(''title'', JStr (string_of title))])
           st (snd (PATCH_api_tasks env u k title st))
    else snd (PATCH_api_tasks env u k title st) = st)"
proof (cases "db_get_task_id (db_err1 env) k u (tasks_table st)")
  case DbError
  then show ?thesis
    by (simp add: PATCH_api_tasks_def PATCH_title_get_cb_def is_success_def)
next
  case (DbOk found)
  show ?thesis
  proof (cases found)
    case None
    with DbOk show ?thesis
      by (simp add: PATCH_api_tasks_def PATCH_title_get_cb_def is_success_def)
  next
    case (Some r)
    with DbOk have "length (filter (\<lambda>t. task_id t = k) (tasks_table st)) \<noteq> 0"
      using matched_changes by blast
    with DbOk Some show ?thesis
      by (simp add: PATCH_api_tasks_def PATCH_title_get_cb_def PATCH_title_run_cb_def
          store_write_def db_update_title_def is_success_def Let_def
          written_invalidated_audited_run)
  qed
qed

lemma effects_DELETE:
  "(if is_success (fst (DELETE_api_tasks env u k st))
    then written_invalidated_audited env u
           (filter (\<lambda>t. \<not> (task_id t = k \<and> task_user_id t = u)) (tasks_table st))
           (js ''DELETE'') (js ''/api/tasks/'' @ k) (JObj [])
           st (snd (DELETE_api_tasks env u k st))
    else snd (DELETE_api_tasks env u k st) = st)"
  by (simp add: DELETE_api_tasks_def DELETE_api_tasks_cb_def store_write_def db_delete_task_def
      is_success_def Let_def written_invalidated_audited_run)

lemma effects_POST_pg:
  "(if is_success (fst (POST_api_tasks_pg env u title st))
    then written_invalidated_audited env u
           (tasks_table st @ [new_task env u (trim (string_of title))])
           (js ''POST'') (js ''/api/tasks'') (JObj [(''title'', JStr (string_of title))])
           st (snd (POST_api_tasks_pg env u title st))
    else snd (POST_api_tasks_pg env u title st) = st)"
  by (simp add: POST_api_tasks_pg_def store_insert_def db_insert_task_def
      is_success_def Let_def written_invalidated_audited_run)

lemma effects_PATCH_status_pg:
  "(if is_success (fst (PATCH_api_tasks_status_pg env u k status st))
    then written_invalidated_audited env u
           (map (\<lambda>x. if task_id x = k
                     then x\<lparr>task_status := string_of status,
                            task_updated_at := current_timestamp env\<rparr>
                     else x) (tasks_table st))
           (js ''PATCH'') (js ''/api/tasks/'' @ k @ js ''/status'')
           (JObj [(''status'', JStr (string_of status))])
           st (snd (PATCH_api_tasks_status_pg env u k status st))
    else snd (PATCH_api_tasks_status_pg env u k status st) = st)"
proof (cases "db_get_task_id (db_err1 env) k u (tasks_table st)")
  case DbError
  then show ?thesis
    by (simp add: PATCH_api_tasks_status_pg_def is_success_def)
next
  case (DbOk found)
  show ?thesis
  proof (cases found)
    case None
    with DbOk show ?thesis
      by (simp add: PATCH_api_tasks_status_pg_def is_success_def)
  next
    case (Some r)
    with DbOk have "length (filter (\<lambda>t. task_id t = k) (tasks_table st)) \<noteq> 0"
      using matched_changes by blast
    with DbOk Some show ?thesis
      by (simp add: PATCH_api_tasks_status_pg_def store_write_def db_update_status_def
          is_success_def Let_def written_invalidated_audited_run)
  qed
qed

lemma effects_PATCH_title_pg:
  "(if is_success (fst (PATCH_api_tasks_pg env u k title st))
    then written_invalidated_audited env u
           (map (\<lambda>x. if task_id x = k
                     then x\<lparr>task_title := trim (string_of title),
                            task_updated_at := current_timestamp env\<rparr>
                     else x) (tasks_table st))
           (js ''PATCH'') (js ''/api/tasks/'' @ k) (JObj [(''title'', JStr (string_of title))])
           st (snd (PATCH_api_tasks_pg env u k title st))
    else snd (PATCH_api_tasks_pg env u k title st) = st)"
proof (cases "db_get_task_id (db_err1 env) k u (tasks_table st)")
  case DbError
  then show ?thesis
    by (simp add: PATCH_api_tasks_pg_def is_success_def)
next
  case (DbOk found)
  show ?thesis
  proof (cases found)
    case None
    with DbOk show ?thesis
      by (simp add: PATCH_api_tasks_pg_def is_success_def)
  next
    case (Some r)
    with DbOk have "length (filter (\<lambda>t. task_id t = k) (tasks_table st)) \<noteq> 0"
      using matched_changes by blast
    with DbOk Some show ?thesis
      by (simp add: PATCH_api_tasks_pg_def store_write_def db_update_title_def
          is_success_def Let_def written_invalidated_audited_run)
  qed
qed

lemma effects_DELETE_pg:
  "(if is_success (fst (DELETE_api_tasks_pg env u k st))
    then written_invalidated_audited env u
           (filter (\<lambda>t. \<not> (task_id t = k \<and> task_user_id t = u)) (tasks_table st))
           (js ''DELETE'') (js ''/api/tasks/'' @ k) (JObj [])
           st (snd (DELETE_api_tasks_pg env u k st))
    else snd (DELETE_api_tasks_pg env u k st) = st)"
  by (simp add: DELETE_api_tasks_pg_def store_write_def db_delete_task_def
      is_success_def Let_def written_invalidated_audited_run)

lemma effects_POST_cb:
  "invalidated_then_audited env u (js ''POST'') (js ''/api/tasks'')
     (JObj [(''title'', JStr title')]) s
     (snd (POST_api_tasks_cb env u ident title' (DbOk n) s))"
  by (simp add: POST_api_tasks_cb_def Let_def invalidated_then_audited_run)

lemma effects_PATCH_status_cb:
  "invalidated_then_audited env u (js ''PATCH'') (js ''/api/tasks/'' @ k @ js ''/status'')
     (JObj [(''status'', JStr (string_of status))]) s
     (snd (PATCH_status_run_cb env u k status (DbOk n) s))"
  by (simp add: PATCH_status_run_cb_def Let_def invalidated_then_audited_run)

lemma effects_PATCH_title_cb:
  "invalidated_then_audited env u (js ''PATCH'') (js ''/api/tasks/'' @ k)
     (JObj [(''title'', JStr (string_of title))]) s
     (snd (PATCH_title_run_cb env u k title (DbOk n) s))"
  by (simp add: PATCH_title_run_cb_def Let_def invalidated_then_audited_run)

lemma effects_DELETE_cb:
  "(if n = 0 then snd (DELETE_api_tasks_cb env u k (DbOk n) s) = s
    else invalidated_then_audited env u (js ''DELETE'') (js ''/api/tasks/'' @ k) (JObj []) s
           (snd (DELETE_api_tasks_cb env u k (DbOk n) s)))"
  by (simp add: DELETE_api_tasks_cb_def Let_def invalidated_then_audited_run)

lemma effects_cb_error:
  "snd (POST_api_tasks_cb env u ident title' DbError s) = s"
  "snd (PATCH_status_run_cb env u k status DbError s) = s"
  "snd (PATCH_title_run_cb env u k title DbError s) = s"
  "snd (DELETE_api_tasks_cb env u k DbError s) = s"
  by (simp_all add: POST_api_tasks_cb_def PATCH_status_run_cb_def PATCH_title_run_cb_def
      DELETE_api_tasks_cb_def)

text \<open>
  C3. In both servers, a create, status update, title edit or delete that is handled to
  its end and answers 200 has done three things in this order. First the statement on
  the \<^verbatim>\<open>tasks\<close> table has completed: the table holds the new row, the updated rows, or
  no longer holds the deleted row. Then the user's cache entry is removed, in a state
  whose table already holds that mutation and whose log has no row of this request. Then
  \<open>persistLog\<close> is called, in a state where the entry is already gone. A request that
  does not answer 200 leaves the state exactly as it was.

  In \<^verbatim>\<open>server.js\<close> the last two steps are the body of the callback of the write
  statement, which runs once the statement has completed. Whatever state the callback
  finds, and whatever number of rows the statement changed, it removes the entry, then
  calls \<open>persistLog\<close>, and leaves the table alone; on an error of the statement it does
  nothing.
\<close>

theorem mutation_effect_order:
  "(if is_success (fst (POST_api_tasks env u title st))
    then written_invalidated_audited env u
           (tasks_table st @ [new_task env u (trim (string_of title))])
           (js ''POST'') (js ''/api/tasks'') (JObj [(''title'', JStr (string_of title))])
           st (snd (POST_api_tasks env u title st))
    else snd (POST_api_tasks env u title st) = st)
   \<and> (if is_success (fst (PATCH_api_tasks_status env u k status st))
    then written_invalidated_audited env u
           (map (\<lambda>x. if task_id x = k
                     then x\<lparr>task_status := string_of status,
                            task_updated_at := current_timestamp env\<rparr>
                     else x) (tasks_table st))
           (js ''PATCH'') (js ''/api/tasks/'' @ k @ js ''/status'')
           (JObj [(''status'', JStr (string_of status))])
           st (snd (PATCH_api_tasks_status env u k status st))
    else snd (PATCH_api_tasks_status env u k status st) = st)
   \<and> (if is_success (fst (PATCH_api_tasks env u k title st))
    then written_invalidated_audited env u
           (map (\<lambda>x. if task_id x = k
                     then x\<lparr>task_title := trim (string_of title),
                            task_updated_at := current_timestamp env\<rparr>
                     else x) (tasks_table st))
           (js ''PATCH'') (js ''/api/tasks/'' @ k) (JObj [(''title'', JStr (string_of title))])
           st (snd (PATCH_api_tasks env u k title st))
    else snd (PATCH_api_tasks env u k title st) = st)
   \<and> (if is_success (fst (DELETE_api_tasks env u k st))
    then written_invalidated_audited env u
           (filter (\<lambda>t. \<not> (task_id t = k \<and> task_user_id t = u)) (tasks_table st))
           (js ''DELETE'') (js ''/api/tasks/'' @ k) (JObj [])
           st (snd (DELETE_api_tasks env u k st))
    else snd (DELETE_api_tasks env u k st) = st)
   \<and> (if is_success (fst (POST_api_tasks_pg env u title st))
    then written_invalidated_audited env u
           (tasks_table st @ [new_task env u (trim (string_of title))])
           (js ''POST'') (js ''/api/tasks'') (JObj [(''title'', JStr (string_of title))])
           st (snd (POST_api_tasks_pg env u title st))
    else snd (POST_api_tasks_pg env u title st) = st)
   \<and> (if is_success (fst (PATCH_api_tasks_status_pg env u k status st))
    then written_invalidated_audited env u
           (map (\<lambda>x. if task_id x = k
                     then x\<lparr>task_status := string_of status,
                            task_updated_at := current_timestamp env\<rparr>
                     else x) (tasks_table st))
           (js ''PATCH'') (js ''/api/tasks/'' @ k @ js ''/status'')
           (JObj [(''status'', JStr (string_of status))])
           st (snd (PATCH_api_tasks_status_pg env u k status st))
    else snd (PATCH_api_tasks_status_pg env u k status st) = st)
   \<and> (if is_success (fst (PATCH_api_tasks_pg env u k title st))
    then written_invalidated_audited env u
           (map (\<lambda>x. if task_id x = k
                     then x\<lparr>task_title := trim (string_of title),
                            task_updated_at := current_timestamp env\<rparr>
                     else x) (tasks_table st))
           (js ''PATCH'') (js ''/api/tasks/'' @ k) (JObj [(''title'', JStr (string_of title))])
           st (snd (PATCH_api_tasks_pg env u k title st))
    else snd (PATCH_api_tasks_pg env u k title st) = st)
   \<and> (if is_success (fst (DELETE_api_tasks_pg env u k st))
    then written_invalidated_audited env u
           (filter (\<lambda>t. \<not> (task_id t = k \<and> task_user_id t = u)) (tasks_table st))
           (js ''DELETE'') (js ''/api/tasks/'' @ k) (JObj [])
           st (snd (DELETE_api_tasks_pg env u k st))
    else snd (DELETE_api_tasks_pg env u k st) = st)
   \<and> invalidated_then_audited env u (js ''POST'') (js ''/api/tasks'')
     (JObj [(''title'', JStr title')]) s
     (snd (POST_api_tasks_cb env u ident title' (DbOk n) s))
   \<and> invalidated_then_audited env u (js ''PATCH'') (js ''/api/tasks/'' @ k @ js ''/status'')
     (JObj [(''status'', JStr (string_of status))]) s
     (snd (PATCH_status_run_cb env u k status (DbOk n) s))
   \<and> invalidated_then_audited env u (js ''PATCH'') (js ''/api/tasks/'' @ k)
     (JObj [(''title'', JStr (string_of title))]) s
     (snd (PATCH_title_run_cb env u k title (DbOk n) s))
   \<and> (if n = 0 then snd (DELETE_api_tasks_cb env u k (DbOk n) s) = s
       else invalidated_then_audited env u (js ''DELETE'') (js ''/api/tasks/'' @ k) (JObj []) s
              (snd (DELETE_api_tasks_cb env u k (DbOk n) s)))
   \<and> snd (POST_api_tasks_cb env u ident title' DbError s) = s
   \<and> snd (PATCH_status_run_cb env u k status DbError s) = s
   \<and> snd (PATCH_title_run_cb env u k title DbError s) = s
   \<and> snd (DELETE_api_tasks_cb env u k DbError s) = s"
  by (intro conjI effects_POST effects_PATCH_status effects_PATCH_title effects_DELETE
      effects_POST_pg effects_PATCH_status_pg effects_PATCH_title_pg effects_DELETE_pg
      effects_POST_cb effects_PATCH_status_cb effects_PATCH_title_cb effects_DELETE_cb
      effects_cb_error)

text \<open>
  Alice has one task, \<^verbatim>\<open>TODO\<close>, and a cache entry. Her status update answers 200:
  the table holds \<^verbatim>\<open>DONE\<close>, her entry is gone, and the three effects are on record in
  order. Bob's delete of her task answers 404 and changes nothing. A callback of the
  update that finds the task already deleted by another request (the statement changed
  no row) still answers 200, removes the entry and leaves the table alone.
\<close>

theorem mutation_effect_order_witness:
  "map task_status (tasks_table listed_state) = [js ''TODO'']
   \<and> cache listed_state alice
       = Some \<lparr>entry_ts = 2001,
               entry_tasks = [\<lparr>row_id = js ''id-1'', row_title = js ''buy milk'',
                               row_status = js ''TODO'', row_created_at = 1,
                               row_updated_at = 1\<rparr>]\<rparr>
   \<and> is_success (fst (PATCH_api_tasks_status last_env alice (js ''id-1'')
         (Some (JStr (js ''DONE''))) listed_state))
   \<and> map task_status (tasks_table (snd (PATCH_api_tasks_status last_env alice (js ''id-1'')
         (Some (JStr (js ''DONE''))) listed_state))) = [js ''DONE'']
   \<and> cache (snd (PATCH_api_tasks_status last_env alice (js ''id-1'')
         (Some (JStr (js ''DONE''))) listed_state)) alice = None
   \<and> trace (snd (PATCH_api_tasks_status last_env alice (js ''id-1'')
         (Some (JStr (js ''DONE''))) listed_state))
       = trace listed_state @
           [EvStoreWrite alice, EvCacheDelete alice,
            EvAudit (js ''PATCH'') (js ''/api/tasks/id-1/status'')]
   \<and> DELETE_api_tasks last_env bob (js ''id-1'') listed_state
       = (Response 404 (error_json ''not found''), listed_state)
   \<and> fst (PATCH_status_run_cb last_env alice (js ''id-1'') (Some (JStr (js ''DONE'')))
            (DbOk 0) (listed_state\<lparr>tasks_table := []\<rparr>))
       = Response 200 (JObj [(''id'', JStr (js ''id-1'')), (''status'', JStr (js ''DONE''))])
   \<and> tasks_table (snd (PATCH_status_run_cb last_env alice (js ''id-1'')
            (Some (JStr (js ''DONE''))) (DbOk 0) (listed_state\<lparr>tasks_table := []\<rparr>))) = []
   \<and> cache (snd (PATCH_status_run_cb last_env alice (js ''id-1'')
            (Some (JStr (js ''DONE''))) (DbOk 0) (listed_state\<lparr>tasks_table := []\<rparr>))) alice
       = None"
  using mutation_effect_order [where env = last_env and u = alice and k = "js ''id-1''"
      and status = "Some (JStr (js ''DONE''))" and st = listed_state and n = 0
      and s = "listed_state\<lparr>tasks_table := []\<rparr>"]
  by (simp add: sqlite_route_defs store_defs cache_defs audit_defs listed_state_def
      created_state_def last_env_def later_env_def quiet_env_def alice_def bob_def
      initial_state_def stable_engine_def row_of_task_def valid_status_def new_task_def
      is_success_def trim_def is_js_whitespace_def js_def error_json_def Let_def)

section \<open>Failures of the audit log\<close>

text \<open>
  C8, evaluated on the code. A body that \<^verbatim>\<open>JSON.stringify\<close> cannot serialise is
  logged as \<^verbatim>\<open>null\<close>, and an insert into \<^verbatim>\<open>logs\<close> that fails when it is run is
  printed and dropped. Two failures of the audit are not contained.
  \<^item> \<^verbatim>\<open>server-pg.js\<close>, list served from the cache: the handler takes a connection
    from the pool only to write the audit row, and takes it outside the \<^verbatim>\<open>try\<close>.
    When \<^verbatim>\<open>pool.connect()\<close> rejects, the request gets no response, although the
    snapshot to answer with is at hand; with a connection it is answered 200, and the
    same request on \<^verbatim>\<open>server.js\<close>, which needs no connection there, is answered 200.
  \<^item> \<^verbatim>\<open>server.js\<close>: when the insert cannot be prepared, the error is an event
    with no handler and the process ends.
\<close>

theorem audit_failure_reaches_caller:
  assumes "fst (getCachedTasks (date_now_get env) u st) = Some cached"
  shows "fst (GET_api_tasks_pg eng (env\<lparr>connect_err := False\<rparr>) u st)
       = Response 200 (tasks_json True cached)
     \<and> fst (GET_api_tasks_pg eng (env\<lparr>connect_err := True\<rparr>) u st) = NoResponse
     \<and> fst (GET_api_tasks eng (env\<lparr>connect_err := True\<rparr>) u st)
       = Response 200 (tasks_json True cached)
     \<and> persistLog_fate (env\<lparr>log_prepare_err := True\<rparr>) = LogErrorUnhandled
     \<and> persistLog_fate (env\<lparr>log_prepare_err := False, log_err := True\<rparr>) = LogErrorPrinted
     \<and> persistLog_fate (env\<lparr>log_prepare_err := False, log_err := False\<rparr>) = LogInserted
     \<and> safeJsonString (env\<lparr>stringify_throws := True\<rparr>) body = None"
proof -
  obtain st1 where hit: "getCachedTasks (date_now_get env) u st = (Some cached, st1)"
    using assms by (cases "getCachedTasks (date_now_get env) u st") simp
  then show ?thesis
    by (simp add: GET_api_tasks_pg_def GET_api_tasks_def Let_def persistLog_fate_def
        safeJsonString_def JSON_stringify_def)
qed

theorem audit_failure_reaches_caller_witness:
  "fst (getCachedTasks (date_now_get last_env) alice pg_listed_state)
     = Some [\<lparr>row_id = js ''id-1'', row_title = js ''buy milk'', row_status = js ''TODO'',
              row_created_at = 1, row_updated_at = 1\<rparr>]
   \<and> fst (GET_api_tasks_pg stable_engine (last_env\<lparr>connect_err := False\<rparr>) alice
            pg_listed_state)
     = Response 200 (tasks_json True
         [\<lparr>row_id = js ''id-1'', row_title = js ''buy milk'', row_status = js ''TODO'',
           row_created_at = 1, row_updated_at = 1\<rparr>])
   \<and> fst (GET_api_tasks_pg stable_engine (last_env\<lparr>connect_err := True\<rparr>) alice
            pg_listed_state)
     = NoResponse
   \<and> fst (POST_api_tasks (quiet_env\<lparr>log_prepare_err := True\<rparr>) alice
            (Some (JStr (js ''buy milk''))) initial_state)
     = Response 200 (JObj [(''id'', JStr (js ''id-1'')), (''user_id'', JStr alice),
                           (''title'', JStr (js ''buy milk'')), (''status'', JStr (js ''TODO''))])
   \<and> trace (snd (POST_api_tasks (quiet_env\<lparr>log_prepare_err := True\<rparr>) alice
            (Some (JStr (js ''buy milk''))) initial_state))
     = [EvStoreWrite alice, EvCacheDelete alice, EvAudit (js ''POST'') (js ''/api/tasks'')]
   \<and> logs_table (snd (POST_api_tasks (quiet_env\<lparr>log_prepare_err := True\<rparr>) alice
            (Some (JStr (js ''buy milk''))) initial_state)) = []
   \<and> persistLog_fate (quiet_env\<lparr>log_prepare_err := True\<rparr>) = LogErrorUnhandled"
proof -
  have hit: "fst (getCachedTasks (date_now_get last_env) alice pg_listed_state)
     = Some [\<lparr>row_id = js ''id-1'', row_title = js ''buy milk'', row_status = js ''TODO'',
              row_created_at = 1, row_updated_at = 1\<rparr>]"
    by (simp add: pg_listed_state_def POST_api_tasks_pg_def GET_api_tasks_pg_def store_defs
        cache_defs audit_defs last_env_def later_env_def quiet_env_def alice_def
        initial_state_def stable_engine_def row_of_task_def new_task_def trim_def
        is_js_whitespace_def js_def Let_def)
  have post: "fst (POST_api_tasks (quiet_env\<lparr>log_prepare_err := True\<rparr>) alice
            (Some (JStr (js ''buy milk''))) initial_state)
     = Response 200 (JObj [(''id'', JStr (js ''id-1'')), (''user_id'', JStr alice),
                           (''title'', JStr (js ''buy milk'')), (''status'', JStr (js ''TODO''))])"
    "trace (snd (POST_api_tasks (quiet_env\<lparr>log_prepare_err := True\<rparr>) alice
            (Some (JStr (js ''buy milk''))) initial_state))
     = [EvStoreWrite alice, EvCacheDelete alice, EvAudit (js ''POST'') (js ''/api/tasks'')]"
    "logs_table (snd (POST_api_tasks (quiet_env\<lparr>log_prepare_err := True\<rparr>) alice
            (Some (JStr (js ''buy milk''))) initial_state)) = []"
    by (simp_all add: POST_api_tasks_def POST_api_tasks_cb_def store_defs cache_defs audit_defs
        quiet_env_def initial_state_def new_task_def trim_def is_js_whitespace_def js_def
        Let_def)
  show ?thesis
    using audit_failure_reaches_caller [OF hit, where eng = stable_engine] hit post
    by (simp add: persistLog_fate_def)
qed

section \<open>Ownership\<close>

text \<open>
  C5. Let task \<open>t\<close> belong to \<open>u1\<close> and let \<open>u2\<close> be another user. A status update, a
  title edit and a delete of \<open>t\<close> requested by \<open>u2\<close> leave the whole state as it was, so
  \<open>t\<close> and everything else of \<open>u1\<close> is untouched. With a valid status, respectively a
  non-empty string title, and a database that answers, the response is 404; it is the
  response the same request gets on a table from which \<open>t\<close> has been removed. (An invalid
  status or title is answered 400 before the table is read, and a failing statement 500.)
\<close>

theorem ownership_isolation:
  assumes "primary_key (tasks_table st)" and "t \<in> set (tasks_table st)"
    and "task_user_id t = u1" and "u2 \<noteq> u1"
  shows
    "PATCH_api_tasks_status env u2 (task_id t) status st =
       (if \<not> valid_status status then Response 400 (error_json ''invalid status'')
        else if db_err1 env then Response 500 (error_json ''DB error'')
        else Response 404 (error_json ''task not found''), st)
     \<and> PATCH_api_tasks env u2 (task_id t) title st =
       (if \<not> truthy title \<or> \<not> is_string title then Response 400 (error_json ''title required'')
        else if db_err1 env then Response 500 (error_json ''DB error'')
        else Response 404 (error_json ''task not found''), st)
     \<and> DELETE_api_tasks env u2 (task_id t) st =
       (if db_err1 env then Response 500 (error_json ''DB error'')
        else Response 404 (error_json ''not found''), st)
     \<and> fst (PATCH_api_tasks_status env u2 (task_id t) status st) =
       fst (PATCH_api_tasks_status env u2 (task_id t) status
              (st\<lparr>tasks_table := filter (\<lambda>x. task_id x \<noteq> task_id t) (tasks_table st)\<rparr>))
     \<and> fst (PATCH_api_tasks env u2 (task_id t) title st) =
       fst (PATCH_api_tasks env u2 (task_id t) title
              (st\<lparr>tasks_table := filter (\<lambda>x. task_id x \<noteq> task_id t) (tasks_table st)\<rparr>))
     \<and> fst (DELETE_api_tasks env u2 (task_id t) st) =
       fst (DELETE_api_tasks env u2 (task_id t)
              (st\<lparr>tasks_table := filter (\<lambda>x. task_id x \<noteq> task_id t) (tasks_table st)\<rparr>))"
proof -
  have none: "filter (\<lambda>x. task_id x = task_id t \<and> task_user_id x = u2) (tasks_table st) = []"
    using assms by (intro not_owner_no_match) auto
  show ?thesis
    by (simp add: PATCH_api_tasks_status_def PATCH_status_get_cb_def PATCH_api_tasks_def
        PATCH_title_get_cb_def DELETE_api_tasks_def DELETE_api_tasks_cb_def store_write_def
        db_get_task_id_def db_delete_task_def none absent_no_match)
qed

theorem ownership_isolation_witness:
  "primary_key (tasks_table state_ab) \<and> task_a \<in> set (tasks_table state_ab)
   \<and> task_user_id task_a = alice \<and> bob \<noteq> alice
   \<and> PATCH_api_tasks_status quiet_env bob (js ''t1'') (Some (JStr (js ''DONE''))) state_ab
       = (Response 404 (error_json ''task not found''), state_ab)
   \<and> PATCH_api_tasks quiet_env bob (js ''t1'') (Some (JStr (js ''mine now''))) state_ab
       = (Response 404 (error_json ''task not found''), state_ab)
   \<and> DELETE_api_tasks quiet_env bob (js ''t1'') state_ab
       = (Response 404 (error_json ''not found''), state_ab)"
proof -
  have h: "primary_key (tasks_table state_ab)" "task_a \<in> set (tasks_table state_ab)"
    "task_user_id task_a = alice" "bob \<noteq> alice"
    by (simp_all add: primary_key_def state_ab_def initial_state_def task_a_def task_b_def
        alice_def bob_def js_def)
  have v: "valid_status (Some (JStr (js ''DONE'')))" "task_id task_a = js ''t1''"
    "\<not> db_err1 quiet_env"
    by (simp_all add: valid_status_def task_a_def quiet_env_def)
  show ?thesis
    using ownership_isolation [OF h, where env = quiet_env
        and status = "Some (JStr (js ''DONE''))" and title = "Some (JStr (js ''mine now''))"]
      h v
    by (simp add: js_def)
qed

section \<open>Listing on a cache miss\<close>

text \<open>
  C4, as the code has it. On a cache miss, with a database that answers, both servers
  respond \<^verbatim>\<open>{cached: false, tasks: rows}\<close> where \<open>rows\<close> is what the engine
  returned: the selected columns of exactly the user's tasks, \<^verbatim>\<open>created_at\<close> never
  increasing; and the cache entry of the user becomes \<open>rows\<close>, stamped with the reading
  of the clock in \<open>setCachedTasks\<close>. The order among rows of equal \<^verbatim>\<open>created_at\<close> is the
  engine's.
\<close>

theorem list_on_miss:
  assumes "order_by_created_at_desc eng"
    and "fst (getCachedTasks (date_now_get env) userId st) = None"
    and "\<not> db_err1 env"
    and "rows = map row_of_task (eng (filter (\<lambda>t. task_user_id t = userId) (tasks_table st)))"
  shows "fst (GET_api_tasks eng env userId st) = Response 200 (tasks_json False rows)
     \<and> cache (snd (GET_api_tasks eng env userId st)) userId
         = Some \<lparr>entry_ts = date_now_set env, entry_tasks = rows\<rparr>
     \<and> (\<not> connect_err env \<longrightarrow>
         fst (GET_api_tasks_pg eng env userId st) = Response 200 (tasks_json False rows)
         \<and> cache (snd (GET_api_tasks_pg eng env userId st)) userId
             = Some \<lparr>entry_ts = date_now_set env, entry_tasks = rows\<rparr>)
     \<and> sorted_wrt (\<lambda>a b. row_created_at b \<le> row_created_at a) rows
     \<and> mset rows
         = mset (map row_of_task (filter (\<lambda>t. task_user_id t = userId) (tasks_table st)))"
proof -
  have sqlite: "fst (GET_api_tasks eng env userId st) = Response 200 (tasks_json False rows)"
    "cache (snd (GET_api_tasks eng env userId st)) userId
         = Some \<lparr>entry_ts = date_now_set env, entry_tasks = rows\<rparr>"
    using assms(2,3,4) by (rule GET_miss)+
  have fresh: "fresh_snapshot (tasks_table st) userId rows"
    unfolding assms(4) using assms(1) by (rule engine_fresh)
  from sqlite fresh show ?thesis
    by (simp add: GET_pg_same assms(3) fresh_snapshot_def)
qed

theorem list_on_miss_witness:
  "order_by_created_at_desc stable_engine
   \<and> fst (getCachedTasks (date_now_get quiet_env) alice state_ab) = None
   \<and> \<not> db_err1 quiet_env \<and> \<not> connect_err quiet_env
   \<and> fst (GET_api_tasks stable_engine quiet_env alice state_ab)
       = Response 200 (tasks_json False [row_of_task task_a, row_of_task task_b])
   \<and> fst (GET_api_tasks_pg stable_engine quiet_env alice state_ab)
       = Response 200 (tasks_json False [row_of_task task_a, row_of_task task_b])
   \<and> cache (snd (GET_api_tasks stable_engine quiet_env alice state_ab)) alice
       = Some \<lparr>entry_ts = 1002, entry_tasks = [row_of_task task_a, row_of_task task_b]\<rparr>"
proof -
  have miss: "fst (getCachedTasks (date_now_get quiet_env) alice state_ab) = None"
    by (simp add: getCachedTasks_def state_ab_def initial_state_def)
  have env: "\<not> db_err1 quiet_env" "\<not> connect_err quiet_env" "date_now_set quiet_env = 1002"
    by (simp_all add: quiet_env_def)
  have rows: "[row_of_task task_a, row_of_task task_b]
      = map row_of_task (stable_engine
          (filter (\<lambda>t. task_user_id t = alice) (tasks_table state_ab)))"
    by (simp add: state_ab_def initial_state_def task_a_def task_b_def stable_engine_def)
  show ?thesis
    using list_on_miss [OF stable_engine_ok miss env(1) rows] stable_engine_ok miss env
    by simp
qed

text \<open>
  Two tasks of one user with the same \<^verbatim>\<open>created_at\<close>, \<open>task_a\<close> inserted before
  \<open>task_b\<close>. Both engines order by \<^verbatim>\<open>created_at\<close> descending; with one the response
  lists \<open>task_a\<close> first, with the other \<open>task_b\<close>. The handler adds no order of its own.
\<close>

theorem tie_order_counterexample:
  "order_by_created_at_desc stable_engine \<and> order_by_created_at_desc reversing_engine
   \<and> tasks_table state_ab = [task_a, task_b]
   \<and> task_user_id task_a = alice \<and> task_user_id task_b = alice
   \<and> task_created_at task_a = task_created_at task_b
   \<and> fst (getCachedTasks (date_now_get quiet_env) alice state_ab) = None
   \<and> fst (GET_api_tasks stable_engine quiet_env alice state_ab)
       = Response 200 (tasks_json False [row_of_task task_a, row_of_task task_b])
   \<and> fst (GET_api_tasks reversing_engine quiet_env alice state_ab)
       = Response 200 (tasks_json False [row_of_task task_b, row_of_task task_a])
   \<and> row_of_task task_a \<noteq> row_of_task task_b"
  by (simp add: stable_engine_ok reversing_engine_ok)
     (simp add: GET_api_tasks_def GET_api_tasks_cb_def getCachedTasks_def db_all_tasks_def
        state_ab_def initial_state_def quiet_env_def task_a_def task_b_def alice_def
        stable_engine_def reversing_engine_def Let_def row_of_task_def js_def)

section \<open>The response of a create request\<close>

text \<open>
  C7, evaluated on the code. For a title that is a string with a character that is not
  whitespace, an insert that succeeds and an id not yet in the table, \<^verbatim>\<open>server.js\<close>
  responds with the object \<^verbatim>\<open>{ id, user_id, title, status: 'TODO' }\<close> built from the
  request: it has no \<^verbatim>\<open>created_at\<close>, and its title is the title as sent, while the
  row it inserted holds the trimmed title and a \<^verbatim>\<open>created_at\<close>. \<^verbatim>\<open>server-pg.js\<close>
  responds with the inserted row: id, user_id, trimmed title, status \<^verbatim>\<open>TODO\<close> and
  \<^verbatim>\<open>created_at\<close>.
\<close>

theorem create_response:
  assumes "title = Some (JStr s)" and "trim s \<noteq> []" and "\<not> db_err1 env"
    and "uuidv4 env \<notin> set (map task_id (tasks_table st))"
  shows "fst (POST_api_tasks env userId title st) =
       Response 200 (JObj [(''id'', JStr (uuidv4 env)), (''user_id'', JStr userId),
                           (''title'', JStr s), (''status'', JStr (js ''TODO''))])
     \<and> response_keys (fst (POST_api_tasks env userId title st))
         = [''id'', ''user_id'', ''title'', ''status'']
     \<and> tasks_table (snd (POST_api_tasks env userId title st)) =
         tasks_table st @ [\<lparr>task_id = uuidv4 env, task_user_id = userId, task_title = trim s,
                             task_status = js ''TODO'', task_created_at = current_timestamp env,
                             task_updated_at = current_timestamp env\<rparr>]
     \<and> (\<not> connect_err env \<longrightarrow>
         fst (POST_api_tasks_pg env userId title st) =
           Response 200 (JObj [(''id'', JStr (uuidv4 env)), (''user_id'', JStr userId),
                               (''title'', JStr (trim s)), (''status'', JStr (js ''TODO'')),
                               (''created_at'', JTime (current_timestamp env))])
         \<and> response_keys (fst (POST_api_tasks_pg env userId title st))
             = [''id'', ''user_id'', ''title'', ''status'', ''created_at''])"
proof -
  have "s \<noteq> []" using assms(2) by (auto simp: trim_def)
  then show ?thesis
    using assms
    by (simp add: POST_api_tasks_def POST_api_tasks_cb_def POST_api_tasks_pg_def store_insert_def
        db_insert_task_def new_task_def json_of_created_def Let_def persistLog_frame
        tasks_table_invalidate)
qed

theorem create_response_witness:
  "trim (js '' buy milk'') \<noteq> [] \<and> \<not> db_err1 quiet_env \<and> \<not> connect_err quiet_env
   \<and> uuidv4 quiet_env \<notin> set (map task_id (tasks_table initial_state))
   \<and> fst (POST_api_tasks quiet_env alice (Some (JStr (js '' buy milk''))) initial_state) =
       Response 200 (JObj [(''id'', JStr (js ''id-1'')), (''user_id'', JStr alice),
                           (''title'', JStr (js '' buy milk'')), (''status'', JStr (js ''TODO''))])
   \<and> ''created_at'' \<notin> set (response_keys
         (fst (POST_api_tasks quiet_env alice (Some (JStr (js '' buy milk''))) initial_state)))
   \<and> map task_title
         (tasks_table (snd (POST_api_tasks quiet_env alice (Some (JStr (js '' buy milk'')))
            initial_state)))
       = [js ''buy milk'']
   \<and> ''created_at'' \<in> set (response_keys
         (fst (POST_api_tasks_pg quiet_env alice (Some (JStr (js '' buy milk''))) initial_state)))"
  using create_response [where title = "Some (JStr (js '' buy milk''))"
      and s = "js '' buy milk''" and env = quiet_env and st = initial_state and userId = alice]
  by (simp add: quiet_env_def initial_state_def trim_def js_def is_js_whitespace_def)

section \<open>Editing a title\<close>

lemma update_title_rows:
  assumes "r \<in> set (map (\<lambda>t. if task_id t = k
                               then t\<lparr>task_title := v, task_updated_at := ts\<rparr> else t) tbl)"
    and "task_id r = k"
  shows "task_title r = v"
proof -
  from assms(1) obtain x where x: "x \<in> set tbl"
    and r: "r = (if task_id x = k then x\<lparr>task_title := v, task_updated_at := ts\<rparr> else x)"
    by auto
  show ?thesis
  proof (cases "task_id x = k")
    case True
    with r show ?thesis by simp
  next
    case False
    with r assms(2) show ?thesis by simp
  qed
qed

lemma PATCH_title_success:
  assumes "t \<in> set (tasks_table st)" and "task_user_id t = userId" and "s \<noteq> []"
    and "\<not> db_err1 env" and "\<not> db_err2 env"
  shows "PATCH_api_tasks env userId (task_id t) (Some (JStr s)) st =
      (Response 200 (JObj [(''id'', JStr (task_id t)), (''title'', JStr s)]),
       persistLog env (js ''PATCH'') (js ''/api/tasks/'' @ task_id t) userId
         (JObj [(''title'', JStr s)])
         (invalidateCache userId
            (st\<lparr>tasks_table :=
                  map (\<lambda>x. if task_id x = task_id t
                           then x\<lparr>task_title := trim s, task_updated_at := current_timestamp env\<rparr>
                           else x) (tasks_table st),
                trace := trace st @ [EvStoreWrite userId]\<rparr>)))"
proof -
  let ?k = "task_id t"
  have "filter (\<lambda>x. task_id x = ?k \<and> task_user_id x = userId) (tasks_table st) \<noteq> []"
    using assms(1,2) by (auto simp: filter_empty_conv)
  then obtain y ys where
    found: "filter (\<lambda>x. task_id x = ?k \<and> task_user_id x = userId) (tasks_table st) = y # ys"
    by (cases "filter (\<lambda>x. task_id x = ?k \<and> task_user_id x = userId) (tasks_table st)") auto
  have get: "db_get_task_id (db_err1 env) ?k userId (tasks_table st) = DbOk (Some (task_id y))"
    using found assms(4) by (simp add: db_get_task_id_def)
  have changes: "length (filter (\<lambda>x. task_id x = ?k) (tasks_table st)) \<noteq> 0"
    using assms(1) by (auto simp: filter_empty_conv)
  show ?thesis
    using assms(3,5) changes
    by (simp add: PATCH_api_tasks_def get PATCH_title_get_cb_def PATCH_title_run_cb_def
        db_update_title_def store_write_def Let_def)
qed

text \<open>
  C10. A user edits the title of a task of theirs to a string \<open>s\<close> that starts or ends
  with whitespace, and the statements succeed. The response carries \<open>s\<close> as sent. The
  table holds \<open>trim s\<close>: the list request that follows misses the cache, and in its
  response the task is present and its title is \<open>trim s\<close>, which is not \<open>s\<close>. The
  Postgres handlers return the same responses.
\<close>

theorem edit_title_echo:
  assumes "order_by_created_at_desc eng"
    and "t \<in> set (tasks_table st)" and "task_user_id t = userId"
    and "s \<noteq> []" and "is_js_whitespace (hd s) \<or> is_js_whitespace (last s)"
    and "\<not> db_err1 env" and "\<not> db_err2 env" and "\<not> db_err1 env'"
    and "st' = snd (PATCH_api_tasks env userId (task_id t) (Some (JStr s)) st)"
    and "rows = map row_of_task (eng (filter (\<lambda>x. task_user_id x = userId) (tasks_table st')))"
  shows "fst (PATCH_api_tasks env userId (task_id t) (Some (JStr s)) st)
       = Response 200 (JObj [(''id'', JStr (task_id t)), (''title'', JStr s)])
     \<and> fst (GET_api_tasks eng env' userId st') = Response 200 (tasks_json False rows)
     \<and> (\<exists>r \<in> set rows. row_id r = task_id t)
     \<and> (\<forall>r \<in> set rows. row_id r = task_id t \<longrightarrow> row_title r = trim s \<and> row_title r \<noteq> s)
     \<and> (\<not> connect_err env \<longrightarrow>
           PATCH_api_tasks_pg env userId (task_id t) (Some (JStr s)) st
             = PATCH_api_tasks env userId (task_id t) (Some (JStr s)) st)
     \<and> (\<not> connect_err env' \<longrightarrow>
           GET_api_tasks_pg eng env' userId st' = GET_api_tasks eng env' userId st')"
proof -
  define k where "k = task_id t"
  define upd :: "task \<Rightarrow> task" where "upd = (\<lambda>x. if task_id x = k
      then x\<lparr>task_title := trim s, task_updated_at := current_timestamp env\<rparr> else x)"
  define tbl' where "tbl' = map upd (tasks_table st)"
  have patch: "PATCH_api_tasks env userId k (Some (JStr s)) st =
      (Response 200 (JObj [(''id'', JStr k), (''title'', JStr s)]),
       persistLog env (js ''PATCH'') (js ''/api/tasks/'' @ k) userId (JObj [(''title'', JStr s)])
         (invalidateCache userId
            (st\<lparr>tasks_table := tbl', trace := trace st @ [EvStoreWrite userId]\<rparr>)))"
    unfolding tbl'_def upd_def k_def by (rule PATCH_title_success [OF assms(2,3,4,6,7)])
  have tbl': "tasks_table st' = tbl'"
    unfolding assms(9) k_def [symmetric] patch
    by (simp add: persistLog_frame tasks_table_invalidate)
  have "cache st' userId = None"
    unfolding assms(9) k_def [symmetric] patch
    by (simp add: persistLog_frame cache_invalidate_self)
  then have miss: "fst (getCachedTasks (date_now_get env') userId st') = None"
    by (simp add: getCachedTasks_def)
  have get: "fst (GET_api_tasks eng env' userId st') = Response 200 (tasks_json False rows)"
    using miss assms(8,10) by (rule GET_miss(1))
  have set_rows: "set rows = row_of_task ` set (filter (\<lambda>x. task_user_id x = userId) tbl')"
    unfolding assms(10) tbl' by (simp only: set_map engine_set [OF assms(1)])
  have upd_t: "upd t = t\<lparr>task_title := trim s, task_updated_at := current_timestamp env\<rparr>"
    by (simp add: upd_def k_def)
  have "upd t \<in> set tbl'"
    unfolding tbl'_def using assms(2) by simp
  moreover have "task_user_id (upd t) = userId"
    using assms(3) by (simp add: upd_t)
  ultimately have "row_of_task (upd t) \<in> set rows"
    unfolding set_rows by simp
  moreover have "row_id (row_of_task (upd t)) = k"
    by (simp add: row_of_task_def upd_t k_def)
  ultimately have ex: "\<exists>r \<in> set rows. row_id r = k" by blast
  have all: "\<forall>r \<in> set rows. row_id r = k \<longrightarrow> row_title r = trim s \<and> row_title r \<noteq> s"
  proof (intro ballI impI)
    fix r assume "r \<in> set rows" and rk: "row_id r = k"
    then obtain x where x: "x \<in> set tbl'" and r: "r = row_of_task x"
      unfolding set_rows by auto
    from rk r have "task_id x = k" by (simp add: row_of_task_def)
    with x have "task_title x = trim s"
      unfolding tbl'_def upd_def by (rule update_title_rows)
    with r have "row_title r = trim s" by (simp add: row_of_task_def)
    moreover have "trim s \<noteq> s" using assms(4,5) by (rule trim_changes)
    ultimately show "row_title r = trim s \<and> row_title r \<noteq> s" by simp
  qed
  have resp: "fst (PATCH_api_tasks env userId k (Some (JStr s)) st)
       = Response 200 (JObj [(''id'', JStr k), (''title'', JStr s)])"
    unfolding patch by simp
  have pg1: "\<not> connect_err env \<longrightarrow>
           PATCH_api_tasks_pg env userId k (Some (JStr s)) st
             = PATCH_api_tasks env userId k (Some (JStr s)) st"
    using assms(6,7) by (simp add: PATCH_title_pg_same)
  have pg2: "\<not> connect_err env' \<longrightarrow>
           GET_api_tasks_pg eng env' userId st' = GET_api_tasks eng env' userId st'"
    using assms(8) by (simp add: GET_pg_same)
  from resp get ex all pg1 pg2 show ?thesis unfolding k_def by blast
qed

theorem edit_title_echo_witness:
  "order_by_created_at_desc stable_engine \<and> task_a \<in> set (tasks_table state_ab)
   \<and> task_user_id task_a = alice \<and> is_js_whitespace (last (js ''buy oat milk ''))
   \<and> \<not> db_err1 quiet_env \<and> \<not> db_err2 quiet_env \<and> \<not> db_err1 later_env
   \<and> fst (PATCH_api_tasks quiet_env alice (js ''t1'') (Some (JStr (js ''buy oat milk '')))
            state_ab)
       = Response 200 (JObj [(''id'', JStr (js ''t1'')), (''title'', JStr (js ''buy oat milk ''))])
   \<and> fst (GET_api_tasks stable_engine later_env alice
            (snd (PATCH_api_tasks quiet_env alice (js ''t1'')
                    (Some (JStr (js ''buy oat milk ''))) state_ab)))
       = Response 200 (tasks_json False
           [\<lparr>row_id = js ''t1'', row_title = js ''buy oat milk'', row_status = js ''TODO'',
             row_created_at = 5, row_updated_at = 1\<rparr>,
            row_of_task task_b])"
proof -
  have h: "task_a \<in> set (tasks_table state_ab)" "task_user_id task_a = alice"
    "js ''buy oat milk '' \<noteq> []"
    "is_js_whitespace (hd (js ''buy oat milk '')) \<or> is_js_whitespace (last (js ''buy oat milk ''))"
    "\<not> db_err1 quiet_env" "\<not> db_err2 quiet_env" "\<not> db_err1 later_env"
    by (simp_all add: state_ab_def initial_state_def task_a_def quiet_env_def later_env_def
        js_def is_js_whitespace_def)
  have k: "task_id task_a = js ''t1''"
    by (simp add: task_a_def)
  have rows: "map row_of_task (stable_engine (filter (\<lambda>x. task_user_id x = alice)
        (tasks_table (snd (PATCH_api_tasks quiet_env alice (task_id task_a)
           (Some (JStr (js ''buy oat milk ''))) state_ab)))))
      = [\<lparr>row_id = js ''t1'', row_title = js ''buy oat milk'', row_status = js ''TODO'',
             row_created_at = 5, row_updated_at = 1\<rparr>,
            row_of_task task_b]"
    unfolding PATCH_title_success [OF h(1,2,3,5,6)]
    by (simp add: persistLog_frame tasks_table_invalidate state_ab_def initial_state_def
        task_a_def task_b_def alice_def stable_engine_def row_of_task_def quiet_env_def
        trim_def is_js_whitespace_def js_def)
  show ?thesis
    using edit_title_echo [OF stable_engine_ok h refl rows [symmetric]] stable_engine_ok h
    by (simp add: k js_def is_js_whitespace_def)
qed

section \<open>Read after write\<close>

subsection \<open>What the table operations preserve\<close>

lemma pk_insert:
  "primary_key tbl \<Longrightarrow> task_id new \<notin> set (map task_id tbl) \<Longrightarrow> primary_key (tbl @ [new])"
  by (simp add: primary_key_def)

lemma pk_update:
  assumes "\<And>x. task_id (f x) = task_id x"
  shows "primary_key (map f tbl) = primary_key tbl"
proof -
  have "map task_id (map f tbl) = map task_id tbl"
    using assms by (induction tbl) simp_all
  then show ?thesis by (simp only: primary_key_def)
qed

lemma pk_delete: "primary_key tbl \<Longrightarrow> primary_key (filter P tbl)"
  by (simp add: primary_key_def distinct_map_filter)

lemma rows_insert:
  "task_user_id new \<noteq> v \<Longrightarrow>
   filter (\<lambda>t. task_user_id t = v) (tbl @ [new]) = filter (\<lambda>t. task_user_id t = v) tbl"
  by simp

lemma rows_update_aux:
  "\<forall>x \<in> set tbl. task_id x = k \<longrightarrow> task_user_id x \<noteq> v \<and> task_user_id (f x) \<noteq> v \<Longrightarrow>
   filter (\<lambda>t. task_user_id t = v) (map (\<lambda>x. if task_id x = k then f x else x) tbl)
     = filter (\<lambda>t. task_user_id t = v) tbl"
  by (induction tbl) auto

lemma rows_update:
  assumes pk: "primary_key tbl" and t: "t \<in> set tbl" "task_id t = k" "task_user_id t = u"
    and v: "v \<noteq> u" and f: "\<And>x. task_user_id (f x) = task_user_id x"
  shows "filter (\<lambda>t. task_user_id t = v) (map (\<lambda>x. if task_id x = k then f x else x) tbl)
       = filter (\<lambda>t. task_user_id t = v) tbl"
proof (rule rows_update_aux, intro ballI impI)
  fix x assume "x \<in> set tbl" and "task_id x = k"
  with pk t(1,2) have "x = t" by (auto dest: primary_key_unique)
  with t(3) v f show "task_user_id x \<noteq> v \<and> task_user_id (f x) \<noteq> v" by simp
qed

lemma rows_delete:
  "v \<noteq> u \<Longrightarrow>
   filter (\<lambda>t. task_user_id t = v) (filter (\<lambda>t. \<not> (task_id t = k \<and> task_user_id t = u)) tbl)
     = filter (\<lambda>t. task_user_id t = v) tbl"
  by (induction tbl) auto

lemma fresh_snapshot_cong:
  "filter (\<lambda>t. task_user_id t = v) tbl' = filter (\<lambda>t. task_user_id t = v) tbl \<Longrightarrow>
   fresh_snapshot tbl' v rows = fresh_snapshot tbl v rows"
  by (simp add: fresh_snapshot_def)

subsection \<open>What each handler of \<^verbatim>\<open>server.js\<close> does to the table and to the cache\<close>

lemma POST_effect:
  assumes "POST_api_tasks env u title st = (r, st')"
  shows "(is_success r \<and> uuidv4 env \<notin> set (map task_id (tasks_table st))
          \<and> tasks_table st' = tasks_table st @ [new_task env u (trim (string_of title))]
          \<and> cache st' = (cache st)(u := None))
       \<or> (\<not> is_success r \<and> tasks_table st' = tasks_table st \<and> cache st' = cache st)"
  using assms
  by (auto simp: POST_api_tasks_def POST_api_tasks_cb_def store_insert_def db_insert_task_def
      is_success_def Let_def persistLog_frame tasks_table_invalidate invalidateCache_def
      new_task_sel split: if_splits)

lemma PATCH_status_effect:
  assumes "PATCH_api_tasks_status env u k status st = (r, st')"
  shows "(is_success r \<and> (\<exists>t \<in> set (tasks_table st). task_id t = k \<and> task_user_id t = u)
          \<and> tasks_table st' =
               map (\<lambda>x. if task_id x = k
                        then x\<lparr>task_status := string_of status,
                               task_updated_at := current_timestamp env\<rparr>
                        else x) (tasks_table st)
          \<and> cache st' = (cache st)(u := None))
       \<or> (\<not> is_success r \<and> tasks_table st' = tasks_table st \<and> cache st' = cache st)"
proof (cases "db_get_task_id (db_err1 env) k u (tasks_table st)")
  case DbError
  with assms show ?thesis
    by (auto simp: PATCH_api_tasks_status_def PATCH_status_get_cb_def is_success_def
        split: if_splits)
next
  case (DbOk found)
  show ?thesis
  proof (cases found)
    case None
    with DbOk assms show ?thesis
      by (auto simp: PATCH_api_tasks_status_def PATCH_status_get_cb_def is_success_def
          split: if_splits)
  next
    case (Some row)
    with DbOk have own: "\<exists>t \<in> set (tasks_table st). task_id t = k \<and> task_user_id t = u"
      using found_owner by blast
    from DbOk Some have "length (filter (\<lambda>t. task_id t = k) (tasks_table st)) \<noteq> 0"
      using matched_changes by blast
    with DbOk Some assms own show ?thesis
      by (auto simp: PATCH_api_tasks_status_def PATCH_status_get_cb_def PATCH_status_run_cb_def
          store_write_def db_update_status_def is_success_def Let_def persistLog_frame
          tasks_table_invalidate invalidateCache_def split: if_splits)
  qed
qed

lemma PATCH_title_effect:
  assumes "PATCH_api_tasks env u k title st = (r, st')"
  shows "(is_success r \<and> (\<exists>t \<in> set (tasks_table st). task_id t = k \<and> task_user_id t = u)
          \<and> tasks_table st' =
               map (\<lambda>x. if task_id x = k
                        then x\<lparr>task_title := trim (string_of title),
                               task_updated_at := current_timestamp env\<rparr>
                        else x) (tasks_table st)
          \<and> cache st' = (cache st)(u := None))
       \<or> (\<not> is_success r \<and> tasks_table st' = tasks_table st \<and> cache st' = cache st)"
proof (cases "db_get_task_id (db_err1 env) k u (tasks_table st)")
  case DbError
  with assms show ?thesis
    by (auto simp: PATCH_api_tasks_def PATCH_title_get_cb_def is_success_def
        split: if_splits)
next
  case (DbOk found)
  show ?thesis
  proof (cases found)
    case None
    with DbOk assms show ?thesis
      by (auto simp: PATCH_api_tasks_def PATCH_title_get_cb_def is_success_def
          split: if_splits)
  next
    case (Some row)
    with DbOk have own: "\<exists>t \<in> set (tasks_table st). task_id t = k \<and> task_user_id t = u"
      using found_owner by blast
    from DbOk Some have "length (filter (\<lambda>t. task_id t = k) (tasks_table st)) \<noteq> 0"
      using matched_changes by blast
    with DbOk Some assms own show ?thesis
      by (auto simp: PATCH_api_tasks_def PATCH_title_get_cb_def PATCH_title_run_cb_def
          store_write_def db_update_title_def is_success_def Let_def persistLog_frame
          tasks_table_invalidate invalidateCache_def split: if_splits)
  qed
qed

lemma DELETE_effect:
  assumes "DELETE_api_tasks env u k st = (r, st')"
  shows "(is_success r
          \<and> tasks_table st' =
               filter (\<lambda>t. \<not> (task_id t = k \<and> task_user_id t = u)) (tasks_table st)
          \<and> cache st' = (cache st)(u := None))
       \<or> (\<not> is_success r \<and> tasks_table st' = tasks_table st \<and> cache st' = cache st)"
  using assms
  by (auto simp: DELETE_api_tasks_def DELETE_api_tasks_cb_def store_write_def db_delete_task_def
      is_success_def Let_def persistLog_frame tasks_table_invalidate invalidateCache_def
      split: if_splits)

lemma GET_effect:
  assumes "GET_api_tasks eng env u st = (r, st')"
  shows "tasks_table st' = tasks_table st
     \<and> (cache st' = cache st
        \<or> cache st' = (cache st)(u \<mapsto> \<lparr>entry_ts = date_now_set env,
              entry_tasks = map row_of_task
                 (eng (filter (\<lambda>t. task_user_id t = u) (tasks_table st)))\<rparr>))"
proof (cases "getCachedTasks (date_now_get env) u st")
  case (Pair hit st1)
  then have frame: "tasks_table st1 = tasks_table st" "cache st1 = cache st"
    using getCachedTasks_frame [of "date_now_get env" u st] by simp_all
  show ?thesis
  proof (cases hit)
    case (Some cached)
    with Pair assms frame show ?thesis
      by (auto simp: GET_api_tasks_def Let_def persistLog_frame)
  next
    case None
    with Pair assms frame show ?thesis
      by (auto simp: GET_api_tasks_def GET_api_tasks_cb_def db_all_tasks_def Let_def
          persistLog_frame setCachedTasks_def split: if_splits)
  qed
qed

subsection \<open>Coherence is kept by every request handled to its end\<close>

lemma coherent_initial: "coherent initial_state"
  by (simp add: coherent_def initial_state_def primary_key_def)

lemma coherent_unchanged:
  "coherent st \<Longrightarrow> tasks_table st' = tasks_table st \<Longrightarrow> cache st' = cache st \<Longrightarrow> coherent st'"
  by (simp add: coherent_def)

lemma coherent_mutation:
  assumes "coherent st" and "primary_key (tasks_table st')"
    and "cache st' = (cache st)(u := None)"
    and "\<And>v. v \<noteq> u \<Longrightarrow>
           filter (\<lambda>t. task_user_id t = v) (tasks_table st')
             = filter (\<lambda>t. task_user_id t = v) (tasks_table st)"
  shows "coherent st'"
  unfolding coherent_def
proof (intro conjI allI impI)
  show "primary_key (tasks_table st')" by (rule assms(2))
next
  fix v entry assume c: "cache st' v = Some entry"
  with assms(3) have v: "v \<noteq> u" and old: "cache st v = Some entry"
    by (auto split: if_splits)
  from assms(1) old have "fresh_snapshot (tasks_table st) v (entry_tasks entry)"
    by (simp add: coherent_def)
  then show "fresh_snapshot (tasks_table st') v (entry_tasks entry)"
    by (simp only: fresh_snapshot_cong [OF assms(4) [OF v]])
qed

lemma coherent_POST:
  assumes "coherent st"
  shows "coherent (snd (POST_api_tasks env u title st))"
proof -
  obtain r st' where eq: "POST_api_tasks env u title st = (r, st')"
    by (cases "POST_api_tasks env u title st")
  from POST_effect [OF eq] show ?thesis
  proof (elim disjE conjE)
    assume fresh: "uuidv4 env \<notin> set (map task_id (tasks_table st))"
      and tbl: "tasks_table st' = tasks_table st @ [new_task env u (trim (string_of title))]"
      and c: "cache st' = (cache st)(u := None)"
    have pk: "primary_key (tasks_table st')"
      unfolding tbl using assms fresh by (intro pk_insert) (simp_all add: coherent_def new_task_sel)
    have "coherent st'"
      using assms pk c
    proof (rule coherent_mutation)
      fix v :: js_string assume "v \<noteq> u"
      then show "filter (\<lambda>t. task_user_id t = v) (tasks_table st')
             = filter (\<lambda>t. task_user_id t = v) (tasks_table st)"
        unfolding tbl by (intro rows_insert) (simp add: new_task_sel)
    qed
    then show ?thesis by (simp add: eq)
  next
    assume "tasks_table st' = tasks_table st" and "cache st' = cache st"
    with assms have "coherent st'" by (rule coherent_unchanged)
    then show ?thesis by (simp add: eq)
  qed
qed

lemma coherent_update:
  assumes "coherent st" and own: "\<exists>t \<in> set (tasks_table st). task_id t = k \<and> task_user_id t = u"
    and tbl: "tasks_table st' = map (\<lambda>x. if task_id x = k then f x else x) (tasks_table st)"
    and c: "cache st' = (cache st)(u := None)"
    and f: "\<And>x. task_id (f x) = task_id x" "\<And>x. task_user_id (f x) = task_user_id x"
  shows "coherent st'"
proof -
  from assms(1) have pk0: "primary_key (tasks_table st)" by (simp add: coherent_def)
  from own obtain t where t: "t \<in> set (tasks_table st)" "task_id t = k" "task_user_id t = u"
    by blast
  have "primary_key (map (\<lambda>x. if task_id x = k then f x else x) (tasks_table st))
      = primary_key (tasks_table st)"
    by (rule pk_update) (simp add: f)
  with pk0 tbl have pk: "primary_key (tasks_table st')" by simp
  show ?thesis
    using assms(1) pk c
  proof (rule coherent_mutation)
    fix v :: js_string assume "v \<noteq> u"
    with pk0 t show "filter (\<lambda>t. task_user_id t = v) (tasks_table st')
             = filter (\<lambda>t. task_user_id t = v) (tasks_table st)"
      unfolding tbl by (intro rows_update [where u = u and t = t]) (simp_all add: f)
  qed
qed

lemma coherent_PATCH_status:
  assumes "coherent st"
  shows "coherent (snd (PATCH_api_tasks_status env u k status st))"
proof -
  obtain r st' where eq: "PATCH_api_tasks_status env u k status st = (r, st')"
    by (cases "PATCH_api_tasks_status env u k status st")
  from PATCH_status_effect [OF eq] show ?thesis
  proof (elim disjE conjE)
    assume "\<exists>t \<in> set (tasks_table st). task_id t = k \<and> task_user_id t = u"
      and "tasks_table st' =
               map (\<lambda>x. if task_id x = k
                        then x\<lparr>task_status := string_of status,
                               task_updated_at := current_timestamp env\<rparr>
                        else x) (tasks_table st)"
      and "cache st' = (cache st)(u := None)"
    with assms have "coherent st'"
      by (rule coherent_update) simp_all
    then show ?thesis by (simp add: eq)
  next
    assume "tasks_table st' = tasks_table st" and "cache st' = cache st"
    with assms have "coherent st'" by (rule coherent_unchanged)
    then show ?thesis by (simp add: eq)
  qed
qed

lemma coherent_PATCH_title:
  assumes "coherent st"
  shows "coherent (snd (PATCH_api_tasks env u k title st))"
proof -
  obtain r st' where eq: "PATCH_api_tasks env u k title st = (r, st')"
    by (cases "PATCH_api_tasks env u k title st")
  from PATCH_title_effect [OF eq] show ?thesis
  proof (elim disjE conjE)
    assume "\<exists>t \<in> set (tasks_table st). task_id t = k \<and> task_user_id t = u"
      and "tasks_table st' =
               map (\<lambda>x. if task_id x = k
                        then x\<lparr>task_title := trim (string_of title),
                               task_updated_at := current_timestamp env\<rparr>
                        else x) (tasks_table st)"
      and "cache st' = (cache st)(u := None)"
    with assms have "coherent st'"
      by (rule coherent_update) simp_all
    then show ?thesis by (simp add: eq)
  next
    assume "tasks_table st' = tasks_table st" and "cache st' = cache st"
    with assms have "coherent st'" by (rule coherent_unchanged)
    then show ?thesis by (simp add: eq)
  qed
qed

lemma coherent_DELETE:
  assumes "coherent st"
  shows "coherent (snd (DELETE_api_tasks env u k st))"
proof -
  obtain r st' where eq: "DELETE_api_tasks env u k st = (r, st')"
    by (cases "DELETE_api_tasks env u k st")
  from DELETE_effect [OF eq] show ?thesis
  proof (elim disjE conjE)
    assume tbl: "tasks_table st' =
               filter (\<lambda>t. \<not> (task_id t = k \<and> task_user_id t = u)) (tasks_table st)"
      and c: "cache st' = (cache st)(u := None)"
    from assms have "primary_key (tasks_table st)" by (simp add: coherent_def)
    then have pk: "primary_key (tasks_table st')" unfolding tbl by (rule pk_delete)
    have "coherent st'"
      using assms pk c
    proof (rule coherent_mutation)
      fix v :: js_string assume "v \<noteq> u"
      then show "filter (\<lambda>t. task_user_id t = v) (tasks_table st')
             = filter (\<lambda>t. task_user_id t = v) (tasks_table st)"
        unfolding tbl by (rule rows_delete)
    qed
    then show ?thesis by (simp add: eq)
  next
    assume "tasks_table st' = tasks_table st" and "cache st' = cache st"
    with assms have "coherent st'" by (rule coherent_unchanged)
    then show ?thesis by (simp add: eq)
  qed
qed

lemma coherent_GET:
  assumes "order_by_created_at_desc eng" and "coherent st"
  shows "coherent (snd (GET_api_tasks eng env u st))"
proof -
  obtain r st' where eq: "GET_api_tasks eng env u st = (r, st')"
    by (cases "GET_api_tasks eng env u st")
  from GET_effect [OF eq] have tbl: "tasks_table st' = tasks_table st"
    and c: "cache st' = cache st
        \<or> cache st' = (cache st)(u \<mapsto> \<lparr>entry_ts = date_now_set env,
              entry_tasks = map row_of_task
                 (eng (filter (\<lambda>t. task_user_id t = u) (tasks_table st)))\<rparr>)"
    by simp_all
  from c have "coherent st'"
  proof
    assume "cache st' = cache st"
    with assms(2) tbl show ?thesis by (rule coherent_unchanged)
  next
    assume new: "cache st' = (cache st)(u \<mapsto> \<lparr>entry_ts = date_now_set env,
              entry_tasks = map row_of_task
                 (eng (filter (\<lambda>t. task_user_id t = u) (tasks_table st)))\<rparr>)"
    show ?thesis
      unfolding coherent_def tbl
    proof (intro conjI allI impI)
      show "primary_key (tasks_table st)" using assms(2) by (simp add: coherent_def)
    next
      fix v entry assume e: "cache st' v = Some entry"
      show "fresh_snapshot (tasks_table st) v (entry_tasks entry)"
      proof (cases "v = u")
        case True
        with e new have "entry_tasks entry = map row_of_task
                 (eng (filter (\<lambda>t. task_user_id t = u) (tasks_table st)))"
          by auto
        with True assms(1) show ?thesis by (simp add: engine_fresh)
      next
        case False
        with e new have "cache st v = Some entry" by simp
        with assms(2) show ?thesis by (simp add: coherent_def)
      qed
    qed
  qed
  then show ?thesis by (simp add: eq)
qed

lemma coherent_handle:
  "order_by_created_at_desc eng \<Longrightarrow> coherent st \<Longrightarrow> coherent (snd (handle eng env u req st))"
  by (cases req)
     (simp_all add: coherent_POST coherent_GET coherent_PATCH_status coherent_PATCH_title
        coherent_DELETE)

lemma coherent_serve:
  "order_by_created_at_desc eng \<Longrightarrow> coherent st \<Longrightarrow> coherent (serve eng reqs st)"
proof (induction reqs arbitrary: st)
  case Nil
  then show ?case by simp
next
  case (Cons a reqs)
  obtain env u req where a: "a = (env, u, req)" by (cases a)
  from Cons.prems have "coherent (snd (handle eng env u req st))"
    by (intro coherent_handle)
  with Cons.IH Cons.prems(1) show ?case by (simp add: a)
qed

lemma GET_fresh:
  assumes "order_by_created_at_desc eng" and "coherent st"
  shows "fst (GET_api_tasks eng env u st) = Response 500 (error_json ''DB error'')
       \<or> (\<exists>c rows. fst (GET_api_tasks eng env u st) = Response 200 (tasks_json c rows)
             \<and> fresh_snapshot (tasks_table st) u rows)"
proof (cases "getCachedTasks (date_now_get env) u st")
  case (Pair hit st1)
  then have frame: "tasks_table st1 = tasks_table st"
    using getCachedTasks_frame(1) [of "date_now_get env" u st] by simp
  show ?thesis
  proof (cases hit)
    case (Some cached)
    with Pair have "\<exists>entry. cache st u = Some entry \<and> entry_tasks entry = cached"
      by (auto simp: getCachedTasks_def split: option.splits if_splits)
    with assms(2) have "fresh_snapshot (tasks_table st) u cached"
      by (auto simp: coherent_def)
    moreover have "fst (GET_api_tasks eng env u st) = Response 200 (tasks_json True cached)"
      using Pair Some by (simp add: GET_api_tasks_def Let_def)
    ultimately show ?thesis by blast
  next
    case None
    show ?thesis
    proof (cases "db_err1 env")
      case True
      with Pair None show ?thesis
        by (simp add: GET_api_tasks_def GET_api_tasks_cb_def db_all_tasks_def)
    next
      case False
      with Pair None frame have "fst (GET_api_tasks eng env u st) = Response 200 (tasks_json False
          (map row_of_task (eng (filter (\<lambda>t. task_user_id t = u) (tasks_table st)))))"
        by (simp add: GET_api_tasks_def GET_api_tasks_cb_def db_all_tasks_def Let_def)
      with engine_fresh [OF assms(1)] show ?thesis by blast
    qed
  qed
qed

lemma mutation_invalidates:
  assumes "req \<noteq> ListTasks" and "is_success (fst (handle eng env u req st))"
  shows "cache (snd (handle eng env u req st)) u = None"
proof (cases req)
  case (CreateTask title)
  obtain r st' where eq: "POST_api_tasks env u title st = (r, st')"
    by (cases "POST_api_tasks env u title st")
  with POST_effect [OF eq] assms(2) CreateTask show ?thesis by auto
next
  case ListTasks
  with assms(1) show ?thesis by simp
next
  case (UpdateStatus k status)
  obtain r st' where eq: "PATCH_api_tasks_status env u k status st = (r, st')"
    by (cases "PATCH_api_tasks_status env u k status st")
  with PATCH_status_effect [OF eq] assms(2) UpdateStatus show ?thesis by auto
next
  case (EditTitle k title)
  obtain r st' where eq: "PATCH_api_tasks env u k title st = (r, st')"
    by (cases "PATCH_api_tasks env u k title st")
  with PATCH_title_effect [OF eq] assms(2) EditTitle show ?thesis by auto
next
  case (DeleteTask k)
  obtain r st' where eq: "DELETE_api_tasks env u k st = (r, st')"
    by (cases "DELETE_api_tasks env u k st")
  with DELETE_effect [OF eq] assms(2) DeleteTask show ?thesis by auto
qed

subsection \<open>Requests handled one at a time\<close>

text \<open>
  C1, as the code has it. Let \<^verbatim>\<open>server.js\<close> handle any requests one at a time, each
  from its first line to the end of its last callback, starting with empty tables and an
  empty cache. A create, status update, title edit or delete by \<open>u\<close> that answers 200
  leaves no cache entry for \<open>u\<close>, so a list request by \<open>u\<close> right after it is answered
  \<^verbatim>\<open>cached: false\<close> with the rows of the table as the mutation left it. After any
  further requests, a list request by \<open>u\<close> is answered 500 or with a snapshot that is
  fresh for the table as it is then, whether the snapshot comes from the cache or from
  the table.
\<close>

theorem read_after_write_one_at_a_time:
  assumes "order_by_created_at_desc eng"
    and "st1 = snd (handle eng env u req (serve eng earlier initial_state))"
    and "st2 = serve eng later st1"
  shows "(req \<noteq> ListTasks \<and> is_success (fst (handle eng env u req (serve eng earlier initial_state)))
          \<longrightarrow> cache st1 u = None
            \<and> (\<not> db_err1 env' \<longrightarrow>
                 fst (GET_api_tasks eng env' u st1) = Response 200 (tasks_json False
                   (map row_of_task (eng (filter (\<lambda>t. task_user_id t = u) (tasks_table st1)))))))
     \<and> (fst (GET_api_tasks eng env'' u st2) = Response 500 (error_json ''DB error'')
        \<or> (\<exists>c rows. fst (GET_api_tasks eng env'' u st2) = Response 200 (tasks_json c rows)
              \<and> fresh_snapshot (tasks_table st2) u rows))"
proof -
  have "coherent (serve eng earlier initial_state)"
    using assms(1) coherent_initial by (rule coherent_serve)
  with assms(1) have "coherent st1"
    unfolding assms(2) by (rule coherent_handle)
  with assms(1) have "coherent st2"
    unfolding assms(3) by (rule coherent_serve)
  with assms(1) have later:
    "fst (GET_api_tasks eng env'' u st2) = Response 500 (error_json ''DB error'')
        \<or> (\<exists>c rows. fst (GET_api_tasks eng env'' u st2) = Response 200 (tasks_json c rows)
              \<and> fresh_snapshot (tasks_table st2) u rows)"
    by (rule GET_fresh)
  have now: "cache st1 u = None
            \<and> (\<not> db_err1 env' \<longrightarrow>
                 fst (GET_api_tasks eng env' u st1) = Response 200 (tasks_json False
                   (map row_of_task (eng (filter (\<lambda>t. task_user_id t = u) (tasks_table st1))))))"
    if "req \<noteq> ListTasks"
      and "is_success (fst (handle eng env u req (serve eng earlier initial_state)))"
  proof -
    from that have none: "cache st1 u = None"
      unfolding assms(2) by (rule mutation_invalidates)
    then have "fst (getCachedTasks (date_now_get env') u st1) = None"
      by (simp add: getCachedTasks_def)
    with none show ?thesis
      by (auto intro: GET_miss(1))
  qed
  from now later show ?thesis by blast
qed

lemma updated_state_table:
  "tasks_table updated_state =
     [\<lparr>task_id = js ''id-1'', task_user_id = alice, task_title = js ''buy milk'',
       task_status = js ''DONE'', task_created_at = 1, task_updated_at = 2\<rparr>]"
  by (simp add: sqlite_route_defs store_defs cache_defs audit_defs updated_state_def
      created_state_def mark_done_def later_env_def quiet_env_def alice_def initial_state_def
      valid_status_def new_task_def trim_def is_js_whitespace_def js_def Let_def)

theorem read_after_write_one_at_a_time_witness:
  "order_by_created_at_desc stable_engine \<and> mark_done \<noteq> ListTasks
   \<and> is_success (fst (handle stable_engine later_env alice mark_done created_state))
   \<and> \<not> db_err1 last_env
   \<and> cache updated_state alice = None
   \<and> fst (GET_api_tasks stable_engine last_env alice updated_state)
       = Response 200 (tasks_json False
           [\<lparr>row_id = js ''id-1'', row_title = js ''buy milk'', row_status = js ''DONE'',
             row_created_at = 1, row_updated_at = 2\<rparr>])"
proof -
  have st1: "updated_state = snd (handle stable_engine later_env alice mark_done
      (serve stable_engine [(quiet_env, alice, CreateTask (Some (JStr (js ''buy milk''))))]
         initial_state))"
    by (simp only: updated_state_def created_state_def)
  have st2: "updated_state = serve stable_engine [] updated_state"
    by simp
  have req: "mark_done \<noteq> ListTasks"
    by (simp add: mark_done_def)
  have ok: "is_success (fst (handle stable_engine later_env alice mark_done created_state))"
    by (simp add: sqlite_route_defs store_defs cache_defs audit_defs created_state_def
        mark_done_def later_env_def quiet_env_def alice_def initial_state_def
        valid_status_def new_task_def is_success_def trim_def is_js_whitespace_def js_def
        Let_def)
  have env: "\<not> db_err1 last_env"
    by (simp add: last_env_def later_env_def quiet_env_def)
  have rows: "map row_of_task (stable_engine
        (filter (\<lambda>t. task_user_id t = alice) (tasks_table updated_state)))
      = [\<lparr>row_id = js ''id-1'', row_title = js ''buy milk'', row_status = js ''DONE'',
             row_created_at = 1, row_updated_at = 2\<rparr>]"
    by (simp add: updated_state_table stable_engine_def row_of_task_def)
  show ?thesis
    using read_after_write_one_at_a_time [OF stable_engine_ok st1 st2,
        where env' = last_env and env'' = last_env]
      stable_engine_ok req ok env
    by (simp add: rows created_state_def)
qed

subsection \<open>A list request in flight across a mutation\<close>

text \<open>
  The claim as stated fails on \<^verbatim>\<open>server.js\<close>. Alice has one task, \<^verbatim>\<open>TODO\<close>, and no
  cache entry. Her first list request misses the cache and the database reads the table
  for it (\<open>race_s1\<close>, \<open>race_answer\<close>). Before its callback runs, her status update to
  \<^verbatim>\<open>DONE\<close> is handled: it answers 200 and leaves her without a cache entry
  (\<open>race_s2\<close>). Then the callback of the first list request runs on the rows read
  earlier and stores them in the cache (\<open>race_s3\<close>). A list request made after all of
  this is answered from the cache, \<^verbatim>\<open>cached: true\<close>, with the task still \<^verbatim>\<open>TODO\<close>,
  while the table holds \<^verbatim>\<open>DONE\<close>.
\<close>

theorem stale_read_counterexample:
  "map task_status (tasks_table created_state) = [js ''TODO'']
   \<and> cache created_state alice = None
   \<and> fst (getCachedTasks (date_now_get quiet_env) alice created_state) = None
   \<and> race_answer = DbOk [\<lparr>row_id = js ''id-1'', row_title = js ''buy milk'',
        row_status = js ''TODO'', row_created_at = 1, row_updated_at = 1\<rparr>]
   \<and> fst (handle stable_engine later_env alice mark_done race_s1)
       = Response 200 (JObj [(''id'', JStr (js ''id-1'')), (''status'', JStr (js ''DONE''))])
   \<and> cache race_s2 alice = None
   \<and> map task_status (tasks_table race_s3) = [js ''DONE'']
   \<and> fst (GET_api_tasks stable_engine last_env alice race_s3)
       = Response 200 (tasks_json True
           [\<lparr>row_id = js ''id-1'', row_title = js ''buy milk'', row_status = js ''TODO'',
             row_created_at = 1, row_updated_at = 1\<rparr>])"
  by (simp add: sqlite_route_defs store_defs cache_defs audit_defs race_s3_def race_s2_def
      race_answer_def race_s1_def created_state_def mark_done_def last_env_def later_env_def
      quiet_env_def alice_def initial_state_def stable_engine_def
      valid_status_def new_task_def row_of_task_def trim_def is_js_whitespace_def js_def
      Let_def)

end
